theory Spec2Isabelle
  imports
    Complex_Main
    "HOL-Library.Multiset"
    "HOL-Library.Product_Lexorder"
    "HOL-Library.Option_ord"
    "HOL-Library.List_Lexorder"
    "HOL-Library.Char_ord"
    "HOL-Library.Sublist"
begin

section \<open>Data model (models.py)\<close>

text \<open>
  A \<open>datetime\<close> is a naive local time; it is modelled by the number of microseconds
  since a fixed origin, so that comparison is comparison of integers and a minute is
  exactly \<open>60000000\<close> units. A \<open>float\<close> field (\<open>time_left\<close>, \<open>time_without_update\<close>)
  is modelled by a real number: the code only compares and negates such values and
  never produces a NaN.

  Of the \<open>Listing\<close> class the fields read by the monitor and by the API client are kept;
  the purely descriptive fields (\<open>name\<close>, \<open>created_world\<close>, \<open>home_world\<close>, \<open>category\<close>,
  \<open>duty\<close>, \<open>min_item_level\<close>, \<open>is_cross_world\<close>, \<open>datacenter\<close>, \<open>objective\<close>,
  \<open>conditions\<close>, \<open>loot_rules\<close>) only appear in formatted messages. The field \<open>id\<close> is
  called \<open>lid\<close> here, since \<open>id\<close> is the identity function of HOL.
\<close>

type_synonym datetime = int

record SlotInfo =
  filled :: bool
  role :: "string option"
  job :: string

record Listing =
  lid :: int
  description :: string
  slots_filled :: int
  slots_available :: int
  time_left :: real
  updated_at :: datetime
  beginners_welcome :: "bool option"
  duty_type :: "string option"
  slots :: "SlotInfo list option"

record Pagination =
  total :: int
  page :: int
  per_page :: int
  total_pages :: int

record ListingsResponse =
  data :: "Listing list"
  pagination :: Pagination

text \<open>
  \<open>FilterCondition\<close>: the fields \<open>duty\<close> and \<open>beginners_welcome\<close> carry the prefix
  \<open>fc_\<close>, their names being taken by the listing.
\<close>

record FilterCondition =
  category :: "string option"
  world :: "string option"
  datacenter :: "string option"
  search :: "string option"
  jobs :: "int list option"
  fc_duty :: "int list option"
  exclude_jobs :: "int list option"
  min_slots_available :: "int option"
  max_slots_filled :: "int option"
  fc_beginners_welcome :: "bool option"
  content_keywords :: "string option"

record MonitorTarget =
  listing_id :: int
  last_update :: datetime
  time_without_update :: real

text \<open>The exceptions that the modelled code raises or catches.\<close>

datatype exn = RuntimeError | ValueError | ValidationError | ClientError | TypeError

section \<open>The sort of the merged results (monitor.py, continuous\_search)\<close>

text \<open>
  \<open>l.updated_at.replace(second=0, microsecond=0)\<close>: the time truncated to the minute.
\<close>

definition truncate_minute :: "datetime \<Rightarrow> datetime" where
  "truncate_minute t = t - t mod 60000000"

text \<open>The key of the sort: \<open>(updated_at truncated, duty_type, -time_left)\<close>.\<close>

definition sort_key_of :: "Listing \<Rightarrow> datetime \<times> string option \<times> real" where
  "sort_key_of l = (truncate_minute (updated_at l), duty_type l, - time_left l)"

text \<open>
  Python compares two key tuples from the left. Two keys with the same minute, one with
  \<open>duty_type = None\<close> and one with a string, cannot be compared: \<open>None < 'x'\<close> raises
  \<open>TypeError\<close>. Two \<open>None\<close> are equal and the comparison moves on to the third component.
  A comparison sort has to compare such a pair whenever the list holds one (the two
  possible places of \<open>None\<close> among the strings give different results), so \<open>list.sort\<close>
  raises exactly when the list holds an incomparable pair.
\<close>

definition comparable :: "Listing \<Rightarrow> Listing \<Rightarrow> bool" where
  "comparable a b \<longleftrightarrow>
     truncate_minute (updated_at a) \<noteq> truncate_minute (updated_at b)
     \<or> (duty_type a = None) = (duty_type b = None)"

definition keys_comparable :: "Listing list \<Rightarrow> bool" where
  "keys_comparable xs \<longleftrightarrow> list_all (\<lambda>a. list_all (comparable a) xs) xs"

text \<open>
  \<open>all_listings.sort(key=..., reverse=True)\<close>. With \<open>reverse=True\<close> CPython reverses the
  list, sorts it stably in ascending order and reverses the result, which keeps entries
  with equal keys in their original order.
\<close>

definition sort_listings :: "Listing list \<Rightarrow> exn + Listing list" where
  "sort_listings xs =
     (if keys_comparable xs then Inr (rev (sort_key sort_key_of (rev xs)))
      else Inl TypeError)"

text \<open>
  The order that the sort establishes between an entry and every later one: the more
  recent minute first, then the greater duty type first, then the smaller remaining time
  first.
\<close>

definition sorted_before :: "Listing \<Rightarrow> Listing \<Rightarrow> bool" where
  "sorted_before a b \<longleftrightarrow>
     truncate_minute (updated_at a) > truncate_minute (updated_at b)
     \<or> (truncate_minute (updated_at a) = truncate_minute (updated_at b)
        \<and> (duty_type a > duty_type b
           \<or> (duty_type a = duty_type b \<and> time_left a \<le> time_left b)))"

text \<open>
  The order as the specification words it: the more recent minute first, then the duty
  type ascending, then the longer remaining time first.
\<close>

definition spec_sorted_before :: "Listing \<Rightarrow> Listing \<Rightarrow> bool" where
  "spec_sorted_before a b \<longleftrightarrow>
     truncate_minute (updated_at a) > truncate_minute (updated_at b)
     \<or> (truncate_minute (updated_at a) = truncate_minute (updated_at b)
        \<and> (duty_type a < duty_type b
           \<or> (duty_type a = duty_type b \<and> time_left a \<ge> time_left b)))"



section \<open>Strings\<close>

text \<open>
  The string methods used by the filters, on ASCII text: \<open>str.split()\<close> without
  argument cuts at runs of whitespace and returns no empty piece, \<open>str.strip()\<close> removes
  the whitespace at both ends, \<open>str.upper()\<close> and \<open>str.lower()\<close> change the case of the
  letters. Characters outside ASCII are left as they are.
\<close>

definition is_space :: "char \<Rightarrow> bool" where
  "is_space c \<longleftrightarrow>
     c \<in> set [CHR 0x09, CHR 0x0A, CHR 0x0B, CHR 0x0C, CHR 0x0D,
              CHR 0x1C, CHR 0x1D, CHR 0x1E, CHR 0x1F, CHR 0x20]"

fun split_from :: "string \<Rightarrow> string \<Rightarrow> string list" where
  "split_from cur [] = (if cur = [] then [] else [cur])"
| "split_from cur (c # cs) =
     (if is_space c then (if cur = [] then split_from [] cs else cur # split_from [] cs)
      else split_from (cur @ [c]) cs)"

definition split :: "string \<Rightarrow> string list" where
  "split s = split_from [] s"

definition strip :: "string \<Rightarrow> string" where
  "strip s = rev (dropWhile is_space (rev (dropWhile is_space s)))"

definition upper_char :: "char \<Rightarrow> char" where
  "upper_char c =
     (case map_of (zip ''abcdefghijklmnopqrstuvwxyz'' ''ABCDEFGHIJKLMNOPQRSTUVWXYZ'') c of
        Some d \<Rightarrow> d | None \<Rightarrow> c)"

definition lower_char :: "char \<Rightarrow> char" where
  "lower_char c =
     (case map_of (zip ''ABCDEFGHIJKLMNOPQRSTUVWXYZ'' ''abcdefghijklmnopqrstuvwxyz'') c of
        Some d \<Rightarrow> d | None \<Rightarrow> c)"

definition upper :: "string \<Rightarrow> string" where
  "upper s = map upper_char s"

definition lower :: "string \<Rightarrow> string" where
  "lower s = map lower_char s"

section \<open>Job codes (job\_mappings.py)\<close>

text \<open>
  The table \<open>JOB_CODE_TO_ID\<close> is read from a file when the module is loaded; the functions
  below take it as a parameter. \<open>basic_mapping\<close> is the built-in table used when the file
  is missing.
\<close>

type_synonym job_table = "string \<rightharpoonup> int"

definition basic_mapping :: job_table where
  "basic_mapping = map_of
     [(''GLA'', 1), (''PLD'', 19), (''MRD'', 3), (''WAR'', 21), (''DRK'', 32), (''GNB'', 37),
      (''PGL'', 2), (''MNK'', 20), (''LNC'', 4), (''DRG'', 22), (''ROG'', 29), (''NIN'', 30),
      (''SAM'', 34), (''RPR'', 39), (''VPR'', 41), (''ARC'', 5), (''BRD'', 23), (''MCH'', 31),
      (''DNC'', 38), (''THM'', 7), (''BLM'', 25), (''ACN'', 26), (''SMN'', 27), (''RDM'', 35),
      (''BLU'', 36), (''PCT'', 42), (''CNJ'', 6), (''WHM'', 24), (''SCH'', 28), (''AST'', 33),
      (''SGE'', 40)]"

definition get_job_ids_from_codes :: "job_table \<Rightarrow> string list \<Rightarrow> int list" where
  "get_job_ids_from_codes tbl job_codes =
     List.map_filter (\<lambda>code. tbl (upper (strip code))) job_codes"

definition get_job_codes_from_string :: "string \<Rightarrow> string list" where
  "get_job_codes_from_string job_string =
     (if job_string = [] then []
      else map (\<lambda>code. upper (strip code)) (filter (\<lambda>code. strip code \<noteq> []) (split job_string)))"

section \<open>The API client (api\_client.py)\<close>

text \<open>
  The parameters of a \<open>GET /listings\<close> request, before they are written as strings.
\<close>

record Request =
  rq_page :: int
  rq_per_page :: int
  rq_category :: "string option"
  rq_world :: "string option"
  rq_datacenter :: "string option"
  rq_search :: "string option"
  rq_jobs :: "int list option"
  rq_duty :: "int list option"

text \<open>
  What the program does to its surroundings is recorded in a history of calls, and what
  the surroundings answer may depend on the whole history so far: the remote service is
  free to change between two requests.
\<close>

datatype call = ListingsCall Request | DetailCall int | ClockRead

type_synonym history = "call list"

text \<open>
  The outcome of an HTTP request as the client sees it: an \<open>aiohttp.ClientError\<close> (no
  connection, or an error status other than the 404 of a detail request), the status
  404, a body that does not parse into the model class, or a parsed value.
\<close>

datatype 'a reply = Failed | Status404 | Malformed | Ok 'a

text \<open>
  The surroundings of the monitor: whether the client's session is open, the answers of
  the remote service, and the clock behind \<open>datetime.now()\<close>.
\<close>

record Env =
  session :: bool
  listings_reply :: "history \<Rightarrow> Request \<Rightarrow> ListingsResponse reply"
  detail_reply :: "history \<Rightarrow> int \<Rightarrow> Listing reply"
  now :: "history \<Rightarrow> datetime"

text \<open>Python truthiness of an optional string, list and integer.\<close>

definition truthy_str :: "string option \<Rightarrow> bool" where
  "truthy_str s \<longleftrightarrow> (case s of None \<Rightarrow> False | Some t \<Rightarrow> t \<noteq> [])"

definition truthy_list :: "'a list option \<Rightarrow> bool" where
  "truthy_list s \<longleftrightarrow> (case s of None \<Rightarrow> False | Some t \<Rightarrow> t \<noteq> [])"

definition truthy_int :: "int option \<Rightarrow> bool" where
  "truthy_int s \<longleftrightarrow> (case s of None \<Rightarrow> False | Some n \<Rightarrow> n \<noteq> 0)"

text \<open>
  The parameters that \<open>get_listings\<close> sends: the page, the page size clamped to 100,
  and the query-level fields of the condition that are set and not empty.
\<close>

definition keep_str :: "string option \<Rightarrow> string option" where
  "keep_str s = (if truthy_str s then s else None)"

definition keep_list :: "int list option \<Rightarrow> int list option" where
  "keep_list s = (if truthy_list s then s else None)"

definition params :: "int \<Rightarrow> int \<Rightarrow> FilterCondition option \<Rightarrow> Request" where
  "params pg pp filter_condition =
     (case filter_condition of
        None \<Rightarrow>
          \<lparr>rq_page = pg, rq_per_page = min pp 100, rq_category = None, rq_world = None,
           rq_datacenter = None, rq_search = None, rq_jobs = None, rq_duty = None\<rparr>
      | Some fc \<Rightarrow>
          \<lparr>rq_page = pg, rq_per_page = min pp 100,
           rq_category = keep_str (category fc), rq_world = keep_str (world fc),
           rq_datacenter = keep_str (datacenter fc), rq_search = keep_str (search fc),
           rq_jobs = keep_list (jobs fc), rq_duty = keep_list (fc_duty fc)\<rparr>)"

definition get_listings ::
  "Env \<Rightarrow> int \<Rightarrow> int \<Rightarrow> FilterCondition option \<Rightarrow> history
     \<Rightarrow> (exn + ListingsResponse) \<times> history" where
  "get_listings env pg pp filter_condition h =
     (if \<not> session env then (Inl RuntimeError, h)
      else
        (case listings_reply env h (params pg pp filter_condition) of
           Failed \<Rightarrow> Inl ClientError
         | Status404 \<Rightarrow> Inl ClientError
         | Malformed \<Rightarrow> Inl ValidationError
         | Ok response \<Rightarrow> Inr response,
         h @ [ListingsCall (params pg pp filter_condition)]))"

definition get_listing_detail ::
  "Env \<Rightarrow> int \<Rightarrow> history \<Rightarrow> (exn + Listing) \<times> history" where
  "get_listing_detail env i h =
     (if \<not> session env then (Inl RuntimeError, h)
      else
        (case detail_reply env h i of
           Failed \<Rightarrow> Inl ClientError
         | Status404 \<Rightarrow> Inl ValueError
         | Malformed \<Rightarrow> Inl ValidationError
         | Ok listing \<Rightarrow> Inr listing,
         h @ [DetailCall i]))"

text \<open>
  \<open>except ValueError\<close> catches \<open>ValueError\<close> and its subclasses, among them the
  validation error of the model classes.
\<close>

definition is_ValueError :: "exn \<Rightarrow> bool" where
  "is_ValueError e \<longleftrightarrow> e = ValueError \<or> e = ValidationError"

text \<open>
  The \<open>while True\<close> loop of \<open>get_all_listings\<close>. It need not end: a service that reports
  ever more pages keeps it running, and then the result is \<open>None\<close>.
\<close>

partial_function (option) get_all_listings_loop ::
  "Env \<Rightarrow> FilterCondition option \<Rightarrow> int option \<Rightarrow> int \<Rightarrow> Listing list \<Rightarrow> history
     \<Rightarrow> ((exn + Listing list) \<times> history) option" where
  "get_all_listings_loop env filter_condition max_pages pg all_listings h =
     (case get_listings env pg 100 filter_condition h of
        (Inl e, h') \<Rightarrow> Some (Inl e, h')
      | (Inr response, h') \<Rightarrow>
          if pg \<ge> total_pages (pagination response)
          then Some (Inr (all_listings @ data response), h')
          else if truthy_int max_pages \<and> pg \<ge> the max_pages
          then Some (Inr (all_listings @ data response), h')
          else get_all_listings_loop env filter_condition max_pages (pg + 1)
                 (all_listings @ data response) h')"

definition get_all_listings ::
  "Env \<Rightarrow> FilterCondition option \<Rightarrow> int option \<Rightarrow> history
     \<Rightarrow> ((exn + Listing list) \<times> history) option" where
  "get_all_listings env filter_condition max_pages h =
     get_all_listings_loop env filter_condition max_pages 1 [] h"


subsection \<open>The detail-level filters (check\_advanced\_filters)\<close>

text \<open>The guard \<open>not any([...])\<close>: every detail-level field is \<open>None\<close>, zero or empty.\<close>

definition no_advanced_filters :: "FilterCondition \<Rightarrow> bool" where
  "no_advanced_filters fc \<longleftrightarrow>
     \<not> (truthy_list (exclude_jobs fc) \<or> truthy_int (min_slots_available fc)
        \<or> truthy_int (max_slots_filled fc) \<or> fc_beginners_welcome fc \<noteq> None
        \<or> truthy_str (content_keywords fc))"

text \<open>
  The loops over the slots and over the excluded ids return \<open>False\<close> at the first
  excluded job they meet.
\<close>

definition slot_has_excluded :: "job_table \<Rightarrow> int list \<Rightarrow> SlotInfo \<Rightarrow> bool" where
  "slot_has_excluded tbl excluded slot \<longleftrightarrow>
     filled slot \<and> job slot \<noteq> []
     \<and> list_ex (\<lambda>exclude_job_id.
          exclude_job_id \<in> set (get_job_ids_from_codes tbl (get_job_codes_from_string (job slot))))
        excluded"

definition excluded_job_found :: "job_table \<Rightarrow> FilterCondition \<Rightarrow> Listing \<Rightarrow> bool" where
  "excluded_job_found tbl fc detailed_listing \<longleftrightarrow>
     (case (exclude_jobs fc, slots detailed_listing) of
        (Some excluded, Some ss) \<Rightarrow>
          excluded \<noteq> [] \<and> ss \<noteq> [] \<and> list_ex (slot_has_excluded tbl excluded) ss
      | _ \<Rightarrow> False)"

definition keywords_of :: "string \<Rightarrow> string list" where
  "keywords_of s = map (\<lambda>kw. lower (strip kw)) (filter (\<lambda>kw. strip kw \<noteq> []) (split s))"

definition keyword_missing :: "FilterCondition \<Rightarrow> Listing \<Rightarrow> bool" where
  "keyword_missing fc detailed_listing \<longleftrightarrow>
     (case content_keywords fc of
        None \<Rightarrow> False
      | Some s \<Rightarrow>
          s \<noteq> [] \<and> keywords_of s \<noteq> []
          \<and> \<not> list_ex (\<lambda>keyword. sublist keyword (lower (description detailed_listing)))
                (keywords_of s))"

text \<open>The checks on the detail record, in the order of the source.\<close>

definition check_detail :: "job_table \<Rightarrow> Listing \<Rightarrow> FilterCondition \<Rightarrow> bool" where
  "check_detail tbl detailed_listing fc =
     (if excluded_job_found tbl fc detailed_listing then False
      else if (case min_slots_available fc of
                 None \<Rightarrow> False | Some n \<Rightarrow> slots_available detailed_listing < n) then False
      else if (case max_slots_filled fc of
                 None \<Rightarrow> False | Some n \<Rightarrow> slots_filled detailed_listing > n) then False
      else if (case fc_beginners_welcome fc of
                 None \<Rightarrow> False | Some b \<Rightarrow> beginners_welcome detailed_listing \<noteq> Some b) then False
      else if keyword_missing fc detailed_listing then False
      else True)"

definition check_advanced_filters ::
  "job_table \<Rightarrow> Env \<Rightarrow> Listing \<Rightarrow> FilterCondition \<Rightarrow> history \<Rightarrow> (exn + bool) \<times> history" where
  "check_advanced_filters tbl env listing fc h =
     (if no_advanced_filters fc then (Inr True, h)
      else
        (case get_listing_detail env (lid listing) h of
           (Inl e, h') \<Rightarrow> if is_ValueError e then (Inr False, h') else (Inl e, h')
         | (Inr detailed_listing, h') \<Rightarrow> (Inr (check_detail tbl detailed_listing fc), h')))"

subsection \<open>The detail stage as the specification words it\<close>









section \<open>The monitor (monitor.py)\<close>

text \<open>
  What the monitor hands to the notifier and to the logger is kept as a list of events,
  the oldest first. The texts of the messages are left to the notifier; an event
  carries the values from which the text is built.
\<close>

datatype expire_reason = NoUpdateFor int | Disappeared

datatype status =
    WatchStarted int
  | AddFailed int
  | WatchStopped int
  | TargetsHeader nat
  | TargetLine Listing MonitorTarget datetime
  | TargetLineFailed int
  | EndedOrDeleted int
  | CheckDone nat nat
  | LoopError exn
  | NotifiedCleared
  | DisplayedCleared
  | Stopping

datatype error_log =
    SearchFailed exn
  | AddTargetFailed exn
  | CheckTargetFailed int exn
  | SearchLoopError exn

datatype event =
    NotifyFound "Listing list" string bool
  | NotifyExpired Listing expire_reason
  | NotifyUpdated Listing
  | ShowStatus status
  | ShowListingsTable "Listing list"
  | LogError error_log

text \<open>
  The registry \<open>monitor_targets\<close> is a dictionary: a list of pairs with distinct keys, in
  the order of insertion.
\<close>

record XIVPFMonitor =
  check_interval :: int
  expire_threshold :: int
  notified_listings :: "int set"
  monitor_targets :: "(int \<times> MonitorTarget) list"
  last_listings :: "Listing list"
  last_displayed_ids :: "int set"
  running :: bool
  events :: "event list"

definition emit :: "event \<Rightarrow> XIVPFMonitor \<Rightarrow> XIVPFMonitor" where
  "emit ev m = m\<lparr>events := events m @ [ev]\<rparr>"

subsection \<open>search\_listings\<close>

text \<open>The loop that keeps the listings passing \<open>check_advanced_filters\<close>.\<close>

fun filter_advanced ::
  "job_table \<Rightarrow> Env \<Rightarrow> FilterCondition \<Rightarrow> Listing list \<Rightarrow> Listing list \<Rightarrow> history
     \<Rightarrow> (exn + Listing list) \<times> history" where
  "filter_advanced tbl env fc [] filtered_listings h = (Inr filtered_listings, h)"
| "filter_advanced tbl env fc (listing # rest) filtered_listings h =
     (case check_advanced_filters tbl env listing fc h of
        (Inl e, h') \<Rightarrow> (Inl e, h')
      | (Inr passes, h') \<Rightarrow>
          filter_advanced tbl env fc rest
            (if passes then filtered_listings @ [listing] else filtered_listings) h')"

text \<open>
  The part of \<open>search_listings\<close> after the filters: the listings not yet notified are
  announced and recorded, and all the filtered listings are returned.
\<close>

definition notify_new ::
  "string \<Rightarrow> bool \<Rightarrow> Listing list \<Rightarrow> XIVPFMonitor \<Rightarrow> XIVPFMonitor" where
  "notify_new filter_name notify filtered_listings m =
     (let new_listings = filter (\<lambda>l. lid l \<notin> notified_listings m) filtered_listings
      in if notify \<and> new_listings \<noteq> []
         then (emit (NotifyFound new_listings filter_name (monitor_targets m = [])) m)
                \<lparr>notified_listings := notified_listings m \<union> set (map lid new_listings)\<rparr>
         else m)"

definition search_listings ::
  "job_table \<Rightarrow> Env \<Rightarrow> FilterCondition \<Rightarrow> string \<Rightarrow> bool \<Rightarrow> XIVPFMonitor \<Rightarrow> history
     \<Rightarrow> (Listing list \<times> XIVPFMonitor \<times> history) option" where
  "search_listings tbl env filter_condition filter_name notify m h =
     (case get_all_listings env (Some filter_condition) None h of
        None \<Rightarrow> None
      | Some (Inl e, h1) \<Rightarrow> Some ([], emit (LogError (SearchFailed e)) m, h1)
      | Some (Inr listings, h1) \<Rightarrow>
          (case filter_advanced tbl env filter_condition listings [] h1 of
             (Inl e, h2) \<Rightarrow> Some ([], emit (LogError (SearchFailed e)) m, h2)
           | (Inr filtered_listings, h2) \<Rightarrow>
               Some (filtered_listings, notify_new filter_name notify filtered_listings m, h2)))"

subsection \<open>The registry of monitored targets\<close>

fun dict_set :: "int \<Rightarrow> MonitorTarget \<Rightarrow> (int \<times> MonitorTarget) list \<Rightarrow> (int \<times> MonitorTarget) list" where
  "dict_set k v [] = [(k, v)]"
| "dict_set k v ((k', v') # rest) =
     (if k = k' then (k, v) # rest else (k', v') # dict_set k v rest)"

definition add_monitor_target :: "Env \<Rightarrow> int \<Rightarrow> XIVPFMonitor \<Rightarrow> history \<Rightarrow> XIVPFMonitor \<times> history" where
  "add_monitor_target env i m h =
     (case get_listing_detail env i h of
        (Inr listing, h') \<Rightarrow>
          (emit (ShowStatus (WatchStarted i))
             (m\<lparr>monitor_targets :=
                  dict_set i \<lparr>listing_id = i, last_update = updated_at listing,
                              time_without_update = 0\<rparr> (monitor_targets m)\<rparr>), h')
      | (Inl e, h') \<Rightarrow>
          (emit (ShowStatus (AddFailed i)) (emit (LogError (AddTargetFailed e)) m), h'))"

definition remove_monitor_target :: "int \<Rightarrow> XIVPFMonitor \<Rightarrow> XIVPFMonitor" where
  "remove_monitor_target i m =
     (if i \<in> set (map fst (monitor_targets m))
      then emit (ShowStatus (WatchStopped i))
             (m\<lparr>monitor_targets := filter (\<lambda>(k, v). k \<noteq> i) (monitor_targets m)\<rparr>)
      else m)"

subsection \<open>show\_monitor\_targets\<close>

definition show_target :: "Env \<Rightarrow> int \<times> MonitorTarget \<Rightarrow> XIVPFMonitor \<times> history \<Rightarrow> XIVPFMonitor \<times> history" where
  "show_target env item mh =
     (case get_listing_detail env (fst item) (snd mh) of
        (Inr listing, h1) \<Rightarrow>
          (emit (ShowStatus (TargetLine listing (snd item) (now env h1))) (fst mh),
           h1 @ [ClockRead])
      | (Inl e, h1) \<Rightarrow> (emit (ShowStatus (TargetLineFailed (fst item))) (fst mh), h1))"

definition show_monitor_targets :: "Env \<Rightarrow> XIVPFMonitor \<Rightarrow> history \<Rightarrow> XIVPFMonitor \<times> history" where
  "show_monitor_targets env m h =
     (if monitor_targets m = [] then (m, h)
      else fold (show_target env) (monitor_targets m)
             (emit (ShowStatus (TargetsHeader (length (monitor_targets m)))) m, h))"

subsection \<open>check\_monitor\_targets\<close>

text \<open>
  An assignment to a field of a target object changes the entry of the registry that
  holds the object, if the registry still holds it.
\<close>

definition set_target :: "int \<Rightarrow> MonitorTarget \<Rightarrow> XIVPFMonitor \<Rightarrow> XIVPFMonitor" where
  "set_target i t m =
     m\<lparr>monitor_targets := map (\<lambda>(k, v). if k = i then (k, t) else (k, v)) (monitor_targets m)\<rparr>"

text \<open>\<open>int(self.expire_threshold/60)\<close>: the quotient, rounded towards zero.\<close>

definition minutes_of :: "int \<Rightarrow> int" where
  "minutes_of n = (if n \<ge> 0 then n div 60 else - ((- n) div 60))"

text \<open>
  \<open>(datetime.now() - target.last_update).total_seconds()\<close>: the difference in seconds.
\<close>

definition total_seconds :: "datetime \<Rightarrow> real" where
  "total_seconds d = real_of_int d / 1000000"

text \<open>
  The body of the loop of \<open>check_monitor_targets\<close>, for one entry of the copy of the
  registry taken when the loop starts. No other iteration touches the target of this
  one, so the target read from the copy is the target as the registry holds it.
\<close>

definition check_target :: "Env \<Rightarrow> int \<times> MonitorTarget \<Rightarrow> XIVPFMonitor \<times> history \<Rightarrow> XIVPFMonitor \<times> history" where
  "check_target env item mh =
     (let i = fst item; target = snd item; m = fst mh in
      case get_listing_detail env i (snd mh) of
        (Inr listing, h1) \<Rightarrow>
          if updated_at listing > last_update target
          then (set_target i (target\<lparr>last_update := updated_at listing, time_without_update := 0\<rparr>)
                  (emit (NotifyUpdated listing) m), h1)
          else
            (let elapsed = total_seconds (now env h1 - last_update target);
                 m1 = set_target i (target\<lparr>time_without_update := elapsed\<rparr>) m
             in if elapsed > real_of_int (expire_threshold m)
                then (remove_monitor_target i
                        (emit (NotifyExpired listing (NoUpdateFor (minutes_of (expire_threshold m)))) m1),
                      h1 @ [ClockRead])
                else (m1, h1 @ [ClockRead]))
      | (Inl e, h1) \<Rightarrow>
          if is_ValueError e
          then (remove_monitor_target i (emit (ShowStatus (EndedOrDeleted i)) m), h1)
          else (emit (LogError (CheckTargetFailed i e)) m, h1))"

definition check_monitor_targets :: "Env \<Rightarrow> XIVPFMonitor \<Rightarrow> history \<Rightarrow> XIVPFMonitor \<times> history" where
  "check_monitor_targets env m h = fold (check_target env) (monitor_targets m) (m, h)"

subsection \<open>check\_expired\_by\_order\<close>

text \<open>
  The index of the last entry before the first one whose remaining time is smaller than
  that of its predecessor; the last index of the list when there is none.
\<close>

definition last_new_index :: "Listing list \<Rightarrow> nat" where
  "last_new_index listings =
     (case find (\<lambda>i. time_left (listings ! i) < time_left (listings ! (i - 1)))
             [1 ..< length listings] of
        Some i \<Rightarrow> i - 1
      | None \<Rightarrow> length listings - 1)"

fun expire_loop :: "int set \<Rightarrow> Listing list \<Rightarrow> XIVPFMonitor \<Rightarrow> XIVPFMonitor" where
  "expire_loop expired_monitor_targets [] m = m"
| "expire_loop expired_monitor_targets (listing # rest) m =
     expire_loop expired_monitor_targets rest
       (if lid listing \<in> expired_monitor_targets
        then remove_monitor_target (lid listing) (emit (NotifyExpired listing Disappeared) m)
        else m)"

definition check_expired_by_order :: "Listing list \<Rightarrow> XIVPFMonitor \<Rightarrow> XIVPFMonitor" where
  "check_expired_by_order listings m =
     (if length listings < 2 \<or> monitor_targets m = [] then m
      else
        (let m1 =
           (if last_listings m \<noteq> [] then
              (let previous_ids = set (map lid (take (last_new_index listings + 1) (last_listings m)));
                   current_ids = set (map lid listings);
                   expired_ids = previous_ids - current_ids;
                   monitor_target_ids = set (map fst (monitor_targets m));
                   expired_monitor_targets = expired_ids \<inter> monitor_target_ids
               in expire_loop expired_monitor_targets (last_listings m) m)
            else m)
         in m1\<lparr>last_listings := listings\<rparr>))"

subsection \<open>One iteration of continuous\_search\<close>

fun search_conditions ::
  "job_table \<Rightarrow> Env \<Rightarrow> (FilterCondition \<times> string) list \<Rightarrow> XIVPFMonitor \<Rightarrow> history
     \<Rightarrow> (Listing list \<times> XIVPFMonitor \<times> history) option" where
  "search_conditions tbl env [] m h = Some ([], m, h)"
| "search_conditions tbl env ((condition, name) # rest) m h =
     (case search_listings tbl env condition name True m h of
        None \<Rightarrow> None
      | Some (listings, m1, h1) \<Rightarrow>
          (case search_conditions tbl env rest m1 h1 of
             None \<Rightarrow> None
           | Some (others, m2, h2) \<Rightarrow> Some (listings @ others, m2, h2)))"

text \<open>The branch taken when no target is monitored.\<close>

definition display_new :: "Listing list \<Rightarrow> XIVPFMonitor \<Rightarrow> XIVPFMonitor" where
  "display_new all_listings m =
     (if all_listings \<noteq> [] then
        (let current_ids = set (map lid all_listings);
             new_ids = current_ids - last_displayed_ids m
         in if new_ids \<noteq> {}
            then (emit (ShowListingsTable all_listings) m)\<lparr>last_displayed_ids := current_ids\<rparr>
            else m)
      else m)"

text \<open>
  The body of the \<open>while\<close> loop, with its handler; the sleep at its end changes nothing
  of the monitor. Of the calls in the body only the sort can raise: the other methods
  catch what their requests raise.
\<close>

definition continuous_search_step ::
  "job_table \<Rightarrow> Env \<Rightarrow> (FilterCondition \<times> string) list \<Rightarrow> bool \<Rightarrow> XIVPFMonitor \<Rightarrow> history
     \<Rightarrow> (XIVPFMonitor \<times> history) option" where
  "continuous_search_step tbl env filter_conditions enable_expire_check m h =
     (case search_conditions tbl env filter_conditions m h of
        None \<Rightarrow> None
      | Some (merged, m1, h1) \<Rightarrow>
          (case sort_listings merged of
             Inl e \<Rightarrow>
               Some (if running m1
                     then emit (ShowStatus (LoopError e)) (emit (LogError (SearchLoopError e)) m1)
                     else m1, h1)
           | Inr all_listings \<Rightarrow>
               (let mh2 =
                  (if monitor_targets m1 \<noteq> [] then
                     (let mh = show_monitor_targets env m1 h1;
                          mb = (if enable_expire_check \<and> all_listings \<noteq> []
                                then check_expired_by_order all_listings (fst mh) else fst mh)
                      in check_monitor_targets env mb (snd mh))
                   else (display_new all_listings m1, h1))
                in Some (emit (ShowStatus (CheckDone (length all_listings)
                                 (length (monitor_targets (fst mh2))))) (fst mh2), snd mh2))))"

subsection \<open>The remaining methods\<close>

definition clear_notified_listings :: "XIVPFMonitor \<Rightarrow> XIVPFMonitor" where
  "clear_notified_listings m = emit (ShowStatus NotifiedCleared) (m\<lparr>notified_listings := {}\<rparr>)"

definition clear_displayed_listings :: "XIVPFMonitor \<Rightarrow> XIVPFMonitor" where
  "clear_displayed_listings m = emit (ShowStatus DisplayedCleared) (m\<lparr>last_displayed_ids := {}\<rparr>)"

definition stop_monitoring :: "XIVPFMonitor \<Rightarrow> XIVPFMonitor" where
  "stop_monitoring m = emit (ShowStatus Stopping) (m\<lparr>running := False\<rparr>)"


subsection \<open>Sequences of method calls\<close>

text \<open>
  What may happen to a monitor between two calls of \<open>clear_notified_listings\<close>: a search
  on its own, an iteration of the loop of \<open>continuous_search\<close>, and the other methods, in
  any order.
\<close>

datatype command =
    Search FilterCondition string bool
  | Cycle "(FilterCondition \<times> string) list" bool
  | AddTarget int
  | RemoveTarget int
  | ClearDisplayed
  | Stop

fun run_command ::
  "job_table \<Rightarrow> Env \<Rightarrow> command \<Rightarrow> XIVPFMonitor \<times> history \<Rightarrow> (XIVPFMonitor \<times> history) option" where
  "run_command tbl env (Search fc name notify) (m, h) =
     map_option snd (search_listings tbl env fc name notify m h)"
| "run_command tbl env (Cycle filter_conditions enable_expire_check) (m, h) =
     continuous_search_step tbl env filter_conditions enable_expire_check m h"
| "run_command tbl env (AddTarget i) (m, h) = Some (add_monitor_target env i m h)"
| "run_command tbl env (RemoveTarget i) (m, h) = Some (remove_monitor_target i m, h)"
| "run_command tbl env ClearDisplayed (m, h) = Some (clear_displayed_listings m, h)"
| "run_command tbl env Stop (m, h) = Some (stop_monitoring m, h)"

fun run_commands ::
  "job_table \<Rightarrow> Env \<Rightarrow> command list \<Rightarrow> XIVPFMonitor \<times> history \<Rightarrow> (XIVPFMonitor \<times> history) option" where
  "run_commands tbl env [] mh = Some mh"
| "run_commands tbl env (c # cs) mh =
     (case run_command tbl env c mh of None \<Rightarrow> None | Some mh1 \<Rightarrow> run_commands tbl env cs mh1)"

section \<open>Notions used in the statements\<close>

subsection \<open>The requests of a full retrieval\<close>

text \<open>
  The requests for the pages \<open>1\<close> to \<open>n\<close> at page size 100, the data of a reply, and
  the data of the pages \<open>lo\<close> to \<open>hi\<close> when the pages are requested in turn after the
  history \<open>h\<close>.
\<close>

definition page_calls :: "FilterCondition option \<Rightarrow> int \<Rightarrow> history" where
  "page_calls fc n = map (\<lambda>p. ListingsCall (params p 100 fc)) [1..n]"

definition reply_data :: "ListingsResponse reply \<Rightarrow> Listing list" where
  "reply_data r = (case r of Ok response \<Rightarrow> data response | _ \<Rightarrow> [])"

definition pages_data ::
  "Env \<Rightarrow> FilterCondition option \<Rightarrow> history \<Rightarrow> int \<Rightarrow> int \<Rightarrow> Listing list" where
  "pages_data env fc h lo hi =
     concat (map (\<lambda>p. reply_data (listings_reply env (h @ page_calls fc (p - 1)) (params p 100 fc)))
       [lo..hi])"

text \<open>
  The number of pages fetched when every reply reports \<open>T\<close> pages: at least one, and
  no more than a cap that is set and not zero.
\<close>

definition page_count :: "int option \<Rightarrow> int \<Rightarrow> int" where
  "page_count max_pages T =
     (if truthy_int max_pages then max 1 (min (the max_pages) T) else max 1 T)"

text \<open>The number of listing requests in a history.\<close>

definition fetches :: "history \<Rightarrow> nat" where
  "fetches h = length (filter (\<lambda>c. case c of ListingsCall rq \<Rightarrow> True | _ \<Rightarrow> False) h)"

subsection \<open>The registry and the events of a run\<close>

text \<open>
  The ids of the monitored targets, the target stored under an id, and the events that
  a run from \<open>m\<close> to \<open>m'\<close> has added.
\<close>

definition target_ids :: "XIVPFMonitor \<Rightarrow> int set" where
  "target_ids m = set (map fst (monitor_targets m))"

definition target_of :: "XIVPFMonitor \<Rightarrow> int \<Rightarrow> MonitorTarget option" where
  "target_of m i = map_of (monitor_targets m) i"

definition new_events :: "XIVPFMonitor \<Rightarrow> XIVPFMonitor \<Rightarrow> event list" where
  "new_events m m' = drop (length (events m)) (events m')"

subsection \<open>The expiration check\<close>



subsection \<open>Notified ids\<close>

text \<open>
  The ids that a list of events announces as found. A run from \<open>m\<close> to \<open>m'\<close> records
  what it finds when the events of \<open>m'\<close> continue those of \<open>m\<close>, no id already notified
  in \<open>m\<close> is announced, and the notified set of \<open>m'\<close> is that of \<open>m\<close> with the
  announced ids.
\<close>

definition found_ids :: "event list \<Rightarrow> int set" where
  "found_ids evs = (\<Union>ev\<in>set evs. case ev of NotifyFound ls n b \<Rightarrow> lid ` set ls | _ \<Rightarrow> {})"

definition records_found :: "XIVPFMonitor \<Rightarrow> XIVPFMonitor \<Rightarrow> bool" where
  "records_found m m' \<longleftrightarrow>
     (\<exists>evs. events m' = events m @ evs \<and> found_ids evs \<inter> notified_listings m = {}
        \<and> notified_listings m' = notified_listings m \<union> found_ids evs)"


text \<open>
  Three kinds of runs: one that leaves everything but the events as it is and
  announces nothing (\<open>quiet\<close>), one that leaves the notified set as it is and announces
  nothing (\<open>silent\<close>), and one that leaves the registry, the snapshot and the displayed
  ids as they are and records what it finds (\<open>search_step\<close>).
\<close>

definition same_config :: "XIVPFMonitor \<Rightarrow> XIVPFMonitor \<Rightarrow> bool" where
  "same_config m m' \<longleftrightarrow>
     check_interval m' = check_interval m \<and> expire_threshold m' = expire_threshold m
     \<and> running m' = running m"

definition quiet :: "XIVPFMonitor \<Rightarrow> XIVPFMonitor \<Rightarrow> bool" where
  "quiet m m' \<longleftrightarrow>
     same_config m m' \<and> monitor_targets m' = monitor_targets m
     \<and> last_listings m' = last_listings m \<and> last_displayed_ids m' = last_displayed_ids m
     \<and> notified_listings m' = notified_listings m
     \<and> (\<exists>evs. events m' = events m @ evs \<and> found_ids evs = {})"

definition search_step :: "XIVPFMonitor \<Rightarrow> XIVPFMonitor \<Rightarrow> bool" where
  "search_step m m' \<longleftrightarrow>
     same_config m m' \<and> monitor_targets m' = monitor_targets m
     \<and> last_listings m' = last_listings m \<and> last_displayed_ids m' = last_displayed_ids m
     \<and> records_found m m'"

definition silent :: "XIVPFMonitor \<Rightarrow> XIVPFMonitor \<Rightarrow> bool" where
  "silent m m' \<longleftrightarrow>
     notified_listings m' = notified_listings m
     \<and> (\<exists>evs. events m' = events m @ evs \<and> found_ids evs = {})"


subsection \<open>The failure of a search\<close>

text \<open>
  The exception with which the body of \<open>search_listings\<close> ends, if it ends with one:
  raised by the retrieval of the pages or by the filter of a listing.
\<close>

definition search_failure ::
  "job_table \<Rightarrow> Env \<Rightarrow> FilterCondition \<Rightarrow> history \<Rightarrow> (exn \<times> history) option" where
  "search_failure tbl env fc h =
     (case get_all_listings env (Some fc) None h of
        None \<Rightarrow> None
      | Some (Inl e, h1) \<Rightarrow> Some (e, h1)
      | Some (Inr listings, h1) \<Rightarrow>
          (case filter_advanced tbl env fc listings [] h1 of
             (Inl e, h2) \<Rightarrow> Some (e, h2)
           | (Inr filtered_listings, h2) \<Rightarrow> None))"

section \<open>Example values\<close>

text \<open>A listing with the given id, update time, duty type and remaining time.\<close>

definition ex_listing :: "int \<Rightarrow> datetime \<Rightarrow> string option \<Rightarrow> real \<Rightarrow> Listing" where
  "ex_listing i t d r =
     \<lparr>lid = i, description = [], slots_filled = 1, slots_available = 8, time_left = r,
      updated_at = t, beginners_welcome = None, duty_type = d, slots = None\<rparr>"

text \<open>
  A service with \<open>T\<close> pages of one listing each, the listing of page \<open>p\<close> having the
  id \<open>p\<close>; no detail record resolves.
\<close>

definition pages_env :: "int \<Rightarrow> Env" where
  "pages_env T =
     \<lparr>session = True,
      listings_reply = (\<lambda>h rq.
        Ok \<lparr>data = (if rq_page rq \<le> T then [ex_listing (rq_page rq) 0 None 1] else []),
            pagination = \<lparr>total = T, page = rq_page rq, per_page = rq_per_page rq,
                          total_pages = T\<rparr>\<rparr>),
      detail_reply = (\<lambda>h i. Status404),
      now = (\<lambda>h. 0)\<rparr>"

text \<open>A condition without any field, and a service that answers every detail request with \<open>d\<close>.\<close>

definition no_filter :: FilterCondition where
  "no_filter =
     \<lparr>category = None, world = None, datacenter = None, search = None, jobs = None,
      fc_duty = None, exclude_jobs = None, min_slots_available = None,
      max_slots_filled = None, fc_beginners_welcome = None, content_keywords = None\<rparr>"

definition detail_env :: "Listing \<Rightarrow> Env" where
  "detail_env d =
     \<lparr>session = True, listings_reply = (\<lambda>h rq. Failed), detail_reply = (\<lambda>h i. Ok d),
      now = (\<lambda>h. 0)\<rparr>"

text \<open>
  A detail record: three of eight slots filled, a warrior in the first slot, the second
  slot open to two healer jobs.
\<close>

definition ex_detail :: Listing where
  "ex_detail =
     \<lparr>lid = 7, description = ''Want SPEED run'', slots_filled = 3, slots_available = 5,
      time_left = 100, updated_at = 0, beginners_welcome = Some True, duty_type = None,
      slots = Some [\<lparr>filled = True, role = Some ''tank'', job = ''WAR''\<rparr>,
                    \<lparr>filled = False, role = None, job = ''WHM SCH''\<rparr>]\<rparr>"

text \<open>
  A service in which listing 1 is gone, listing 2 was updated at time 500 and every
  other listing at time 0, read by a clock that shows 301 seconds; and a monitor with
  a threshold of 300 seconds and three targets.
\<close>

definition lifecycle_env :: Env where
  "lifecycle_env =
     \<lparr>session = True, listings_reply = (\<lambda>h rq. Failed),
      detail_reply = (\<lambda>h i. if i = 1 then Status404
                              else if i = 2 then Ok (ex_listing 2 500 None 60)
                              else Ok (ex_listing i 0 None 60)),
      now = (\<lambda>h. 301000000)\<rparr>"

definition ex_monitor :: XIVPFMonitor where
  "ex_monitor =
     \<lparr>check_interval = 30, expire_threshold = 300, notified_listings = {},
      monitor_targets =
        [(1, \<lparr>listing_id = 1, last_update = 0, time_without_update = 0\<rparr>),
         (2, \<lparr>listing_id = 2, last_update = 100, time_without_update = 0\<rparr>),
         (3, \<lparr>listing_id = 3, last_update = 0, time_without_update = 0\<rparr>)],
      last_listings = [], last_displayed_ids = {}, running = True, events = []\<rparr>"


definition expiry_cur :: "Listing list" where
  "expiry_cur = [ex_listing 4 0 None 50, ex_listing 5 0 None 5]"


definition idle_monitor :: XIVPFMonitor where
  "idle_monitor = ex_monitor\<lparr>monitor_targets := []\<rparr>"

text \<open>
  A service with one page holding the current sequence, which fails for the category
  \<open>bad\<close>; the detail request fails for listing 1 and does not find listing 2.
\<close>

definition two_env :: Env where
  "two_env =
     \<lparr>session = True,
      listings_reply = (\<lambda>h rq.
        if rq_category rq = Some ''bad'' then Failed
        else Ok \<lparr>data = expiry_cur,
                 pagination = \<lparr>total = 2, page = 1, per_page = 100, total_pages = 1\<rparr>\<rparr>),
      detail_reply = (\<lambda>h i. if i = 1 then Failed else if i = 2 then Status404
                              else Ok (ex_listing i 0 None 60)),
      now = (\<lambda>h. 1000000)\<rparr>"


definition bad_filter :: FilterCondition where
  "bad_filter = no_filter\<lparr>category := Some ''bad''\<rparr>"

definition found_monitor :: XIVPFMonitor where
  "found_monitor =
     idle_monitor\<lparr>notified_listings := {4, 5}, last_displayed_ids := {4, 5},
       events := [NotifyFound expiry_cur ''all'' True,
                  ShowListingsTable [ex_listing 5 0 None 5, ex_listing 4 0 None 50],
                  ShowStatus (CheckDone 2 0)]\<rparr>"

section \<open>Properties of the sort\<close>

lemma key_ge_sorted_before: "sort_key_of b \<le> sort_key_of a \<Longrightarrow> sorted_before a b"
  by (auto simp: sort_key_of_def sorted_before_def)

lemma sorted_wrt_rev_sort: "sorted_wrt sorted_before (rev (sort_key sort_key_of zs))"
proof -
  have "sorted (map sort_key_of (sort_key sort_key_of zs))"
    by (rule sorted_sort_key)
  then have "sorted_wrt (\<lambda>a b. sort_key_of a \<le> sort_key_of b) (sort_key sort_key_of zs)"
    by (simp add: sorted_map)
  then have "sorted_wrt (\<lambda>a b. sort_key_of b \<le> sort_key_of a) (rev (sort_key sort_key_of zs))"
    by (simp add: sorted_wrt_rev)
  then show ?thesis
    using key_ge_sorted_before sorted_wrt_mono_rel[of "rev (sort_key sort_key_of zs)"
        "\<lambda>a b. sort_key_of b \<le> sort_key_of a" sorted_before] by blast
qed

lemma stable_rev_sort:
  "filter (\<lambda>l. sort_key_of l = k) (rev (sort_key sort_key_of (rev xs)))
     = filter (\<lambda>l. sort_key_of l = k) xs"
  by (simp add: rev_filter[symmetric] sort_key_stable)

text \<open>
  Claim C5, as the code has it. When the keys can be compared, the merged list is a
  rearrangement of the results in which every entry stands before every later one in
  the order \<open>sorted_before\<close>: the more recent minute first, among entries of one minute
  the greater duty type first, and among entries of one minute and one duty type the
  smaller remaining time first. Entries with equal keys keep the order in which the
  searches returned them. When two entries of one minute differ in having a duty type,
  the sort raises \<open>TypeError\<close>.
\<close>

theorem sort_listings_order:
  "(keys_comparable xs \<longrightarrow>
      (\<exists>ys. sort_listings xs = Inr ys \<and> mset ys = mset xs \<and> sorted_wrt sorted_before ys
         \<and> (\<forall>k. filter (\<lambda>l. sort_key_of l = k) ys = filter (\<lambda>l. sort_key_of l = k) xs)))
   \<and> (\<not> keys_comparable xs \<longrightarrow> sort_listings xs = Inl TypeError)"
  by (simp add: sort_listings_def sorted_wrt_rev_sort stable_rev_sort)

text \<open>
  The theorem at a list of three results: two of one minute and one duty type, with
  remaining times 20 and 10, and an older one; and at two results of one minute of
  which only one has a duty type.
\<close>

theorem sort_listings_order_witness:
  "keys_comparable [ex_listing 2 0 None 20, ex_listing 5 (-60000000) None 3, ex_listing 1 0 None 10]
   \<and> sort_listings [ex_listing 2 0 None 20, ex_listing 5 (-60000000) None 3, ex_listing 1 0 None 10]
       = Inr [ex_listing 1 0 None 10, ex_listing 2 0 None 20, ex_listing 5 (-60000000) None 3]
   \<and> sorted_wrt sorted_before
       [ex_listing 1 0 None 10, ex_listing 2 0 None 20, ex_listing 5 (-60000000) None 3]
   \<and> \<not> keys_comparable [ex_listing 1 0 None 10, ex_listing 2 0 (Some ''A'') 20]
   \<and> sort_listings [ex_listing 1 0 None 10, ex_listing 2 0 (Some ''A'') 20] = Inl TypeError"
proof -
  let ?xs = "[ex_listing 2 0 None 20, ex_listing 5 (-60000000) None 3, ex_listing 1 0 None 10]"
  have c: "keys_comparable ?xs"
    by (simp add: keys_comparable_def comparable_def ex_listing_def truncate_minute_def)
  have v: "sort_listings ?xs
      = Inr [ex_listing 1 0 None 10, ex_listing 2 0 None 20, ex_listing 5 (-60000000) None 3]"
    by (simp add: sort_listings_def keys_comparable_def comparable_def ex_listing_def
        sort_key_of_def truncate_minute_def)
  have n: "\<not> keys_comparable [ex_listing 1 0 None 10, ex_listing 2 0 (Some ''A'') 20]"
    by (simp add: keys_comparable_def comparable_def ex_listing_def truncate_minute_def)
  from sort_listings_order [of "[ex_listing 1 0 None 10, ex_listing 2 0 (Some ''A'') 20]"] n
  have t: "sort_listings [ex_listing 1 0 None 10, ex_listing 2 0 (Some ''A'') 20] = Inl TypeError"
    by blast
  from sort_listings_order [of ?xs] c v
  have "sorted_wrt sorted_before
       [ex_listing 1 0 None 10, ex_listing 2 0 None 20, ex_listing 5 (-60000000) None 3]"
    by simp
  with c v n t show ?thesis
    by blast
qed

text \<open>
  Claim C5 as it is worded fails: of two results of one minute and one duty type the
  sort puts the one with the shorter remaining time first, and of two results of one
  minute the one with the greater duty type first.
\<close>

theorem sort_listings_spec_order_counterexample:
  "sort_listings [ex_listing 2 0 None 20, ex_listing 1 0 None 10]
     = Inr [ex_listing 1 0 None 10, ex_listing 2 0 None 20]
   \<and> \<not> sorted_wrt spec_sorted_before [ex_listing 1 0 None 10, ex_listing 2 0 None 20]
   \<and> sort_listings [ex_listing 3 0 (Some ''A'') 5, ex_listing 4 0 (Some ''B'') 5]
     = Inr [ex_listing 4 0 (Some ''B'') 5, ex_listing 3 0 (Some ''A'') 5]
   \<and> \<not> sorted_wrt spec_sorted_before
         [ex_listing 4 0 (Some ''B'') 5, ex_listing 3 0 (Some ''A'') 5]"
  by (simp add: sort_listings_def keys_comparable_def comparable_def ex_listing_def
      sort_key_of_def truncate_minute_def spec_sorted_before_def)

section \<open>Properties of the full retrieval\<close>

lemma page_calls_step:
  "1 \<le> p \<Longrightarrow> page_calls fc (p - 1) @ [ListingsCall (params p 100 fc)] = page_calls fc p"
  by (simp add: page_calls_def upto_rec2[of 1 p])

lemma pages_data_step:
  "p \<le> n \<Longrightarrow> pages_data env fc h p n =
     reply_data (listings_reply env (h @ page_calls fc (p - 1)) (params p 100 fc))
       @ pages_data env fc h (p + 1) n"
  by (simp add: pages_data_def upto_rec1[of p n])

lemma pages_data_last:
  "pages_data env fc h p p =
     reply_data (listings_reply env (h @ page_calls fc (p - 1)) (params p 100 fc))"
  by (simp add: pages_data_def)

lemma fetches_page_calls: "fetches (h @ page_calls fc n) = fetches h + nat n"
  by (simp add: fetches_def page_calls_def filter_map comp_def)

text \<open>
  The loop from page \<open>p\<close> on, when the pages before \<open>p\<close> have been requested: induction
  on the number of pages still to fetch.
\<close>

lemma loop_pages:
  assumes s: "session env"
    and r: "\<forall>h rq. \<exists>r. listings_reply env h rq = Ok r \<and> total_pages (pagination r) = T"
  shows "1 \<le> p \<Longrightarrow> p \<le> page_count mp T \<Longrightarrow>
     get_all_listings_loop env fc mp p acc (h @ page_calls fc (p - 1))
       = Some (Inr (acc @ pages_data env fc h p (page_count mp T)),
               h @ page_calls fc (page_count mp T))"
proof (induction "nat (page_count mp T - p)" arbitrary: p acc)
  case 0
  then have pn: "page_count mp T = p" by simp
  obtain resp where resp: "listings_reply env (h @ page_calls fc (p - 1)) (params p 100 fc) = Ok resp"
    and tp: "total_pages (pagination resp) = T" using r by blast
  have gl: "get_listings env p 100 fc (h @ page_calls fc (p - 1)) = (Inr resp, h @ page_calls fc p)"
    using s resp page_calls_step[OF 0(2), of fc] by (simp add: get_listings_def)
  have stop: "p \<ge> T \<or> (truthy_int mp \<and> p \<ge> the mp)"
    using pn by (auto simp: page_count_def split: if_splits)
  have "get_all_listings_loop env fc mp p acc (h @ page_calls fc (p - 1))
      = Some (Inr (acc @ data resp), h @ page_calls fc p)"
    by (subst get_all_listings_loop.simps) (use gl stop tp in auto)
  then show ?case
    using resp by (simp add: pn pages_data_last reply_data_def)
next
  case (Suc k)
  obtain resp where resp: "listings_reply env (h @ page_calls fc (p - 1)) (params p 100 fc) = Ok resp"
    and tp: "total_pages (pagination resp) = T" using r by blast
  have gl: "get_listings env p 100 fc (h @ page_calls fc (p - 1)) = (Inr resp, h @ page_calls fc p)"
    using s resp page_calls_step[OF Suc(3), of fc] by (simp add: get_listings_def)
  from Suc(2) have lt: "p < page_count mp T" by simp
  then have go: "\<not> p \<ge> T" "\<not> (truthy_int mp \<and> p \<ge> the mp)"
    using Suc(3) by (auto simp: page_count_def split: if_splits)
  have k: "k = nat (page_count mp T - (p + 1))" using Suc(2) by simp
  have ih: "get_all_listings_loop env fc mp (p + 1) (acc @ data resp) (h @ page_calls fc (p + 1 - 1))
     = Some (Inr ((acc @ data resp) @ pages_data env fc h (p + 1) (page_count mp T)),
             h @ page_calls fc (page_count mp T))"
    by (rule Suc(1)[OF k]) (use Suc(3) lt in simp_all)
  have "get_all_listings_loop env fc mp p acc (h @ page_calls fc (p - 1))
      = get_all_listings_loop env fc mp (p + 1) (acc @ data resp) (h @ page_calls fc p)"
    by (subst get_all_listings_loop.simps) (use gl go tp in auto)
  also have "\<dots> = Some (Inr ((acc @ data resp) @ pages_data env fc h (p + 1) (page_count mp T)),
             h @ page_calls fc (page_count mp T))"
    using ih by simp
  also have "(acc @ data resp) @ pages_data env fc h (p + 1) (page_count mp T)
      = acc @ pages_data env fc h p (page_count mp T)"
    using pages_data_step[of p "page_count mp T" env fc h] lt resp by (simp add: reply_data_def)
  finally show ?case .
qed

text \<open>
  Claim C7, as the code has it. Every request of \<open>get_listings\<close> carries the page asked
  for and the page size clamped to 100. With an open session and a service whose every
  reply reports \<open>T\<close> pages, \<open>get_all_listings\<close> returns: it requests the pages
  \<open>1, 2, \<dots>\<close> in turn at page size 100, \<open>max 1 T\<close> of them when no cap is given (or the
  cap is 0) and \<open>max 1 (min max_pages T)\<close> of them otherwise, and its result is the
  data of these pages, joined in the order of the pages.
\<close>

theorem get_all_listings_pages:
  assumes "session env"
    and "\<forall>h rq. \<exists>r. listings_reply env h rq = Ok r \<and> total_pages (pagination r) = T"
  shows "rq_page (params p pp fc) = p \<and> rq_per_page (params p pp fc) = min pp 100
     \<and> get_all_listings env fc max_pages h
         = Some (Inr (pages_data env fc h 1 (page_count max_pages T)),
                 h @ page_calls fc (page_count max_pages T))
     \<and> fetches (h @ page_calls fc (page_count max_pages T))
         = fetches h + nat (page_count max_pages T)
     \<and> page_count None T = max 1 T
     \<and> page_count (Some 0) T = max 1 T
     \<and> (c \<noteq> 0 \<longrightarrow> page_count (Some c) T = max 1 (min c T))"
proof -
  have "1 \<le> page_count max_pages T"
    by (simp add: page_count_def)
  from loop_pages[OF assms, of 1 max_pages fc "[]" h] this
  have "get_all_listings env fc max_pages h
         = Some (Inr (pages_data env fc h 1 (page_count max_pages T)),
                 h @ page_calls fc (page_count max_pages T))"
    by (simp add: get_all_listings_def page_calls_def)
  moreover have "rq_page (params p pp fc) = p \<and> rq_per_page (params p pp fc) = min pp 100"
    by (simp add: params_def split: option.splits)
  ultimately show ?thesis
    by (simp add: fetches_page_calls page_count_def truthy_int_def)
qed

text \<open>
  The theorem at a service of three pages, without a cap and with a cap of two pages:
  three requests and two requests.
\<close>

theorem get_all_listings_pages_witness:
  "session (pages_env 3)
   \<and> get_all_listings (pages_env 3) None None []
       = Some (Inr [ex_listing 1 0 None 1, ex_listing 2 0 None 1, ex_listing 3 0 None 1],
               [ListingsCall (params 1 100 None), ListingsCall (params 2 100 None),
                ListingsCall (params 3 100 None)])
   \<and> get_all_listings (pages_env 3) None (Some 2) []
       = Some (Inr [ex_listing 1 0 None 1, ex_listing 2 0 None 1],
               [ListingsCall (params 1 100 None), ListingsCall (params 2 100 None)])"
proof -
  have s: "session (pages_env 3)"
    by (simp add: pages_env_def)
  have r: "\<forall>h rq. \<exists>r. listings_reply (pages_env 3) h rq = Ok r \<and> total_pages (pagination r) = 3"
    by (simp add: pages_env_def)
  have a: "get_all_listings (pages_env 3) None None []
       = Some (Inr [ex_listing 1 0 None 1, ex_listing 2 0 None 1, ex_listing 3 0 None 1],
               [ListingsCall (params 1 100 None), ListingsCall (params 2 100 None),
                ListingsCall (params 3 100 None)])"
    using get_all_listings_pages [OF s r, of 1 100 None None "[]" 1]
    by (simp add: page_count_def truthy_int_def pages_data_def page_calls_def reply_data_def
        pages_env_def params_def upto_rec1)
  have b: "get_all_listings (pages_env 3) None (Some 2) []
       = Some (Inr [ex_listing 1 0 None 1, ex_listing 2 0 None 1],
               [ListingsCall (params 1 100 None), ListingsCall (params 2 100 None)])"
    using get_all_listings_pages [OF s r, of 1 100 None "Some 2" "[]" 1]
    by (simp add: page_count_def truthy_int_def pages_data_def page_calls_def reply_data_def
        pages_env_def params_def upto_rec1)
  from s a b show ?thesis
    by simp
qed

text \<open>
  Claim C7 as it is worded fails at a service that reports no page at all: one request
  is made, not \<open>total_pages = 0\<close> of them, without a cap and with a cap of five pages.
\<close>

theorem get_all_listings_count_counterexample:
  "map_option (fetches \<circ> snd) (get_all_listings (pages_env 0) None None []) = Some 1
   \<and> map_option (fetches \<circ> snd) (get_all_listings (pages_env 0) None (Some 5) []) = Some 1
   \<and> nat (min 5 0) = 0"
proof -
  have a: "get_all_listings (pages_env 0) None mp []
      = Some (Inr [], [ListingsCall (params 1 100 None)])" for mp
    unfolding get_all_listings_def
    by (subst get_all_listings_loop.simps) (simp add: get_listings_def pages_env_def params_def)
  show ?thesis
    by (simp add: a fetches_def)
qed

section \<open>Properties of the detail-level filters\<close>











text \<open>
  Claim C10. When the list of excluded jobs, the beginner flag and the keyword text are
  not set, and each of the two slot bounds is not set or 0, \<open>check_advanced_filters\<close>
  returns true for every listing and leaves the history as it is: no detail record is
  fetched, so that \<open>max_slots_filled = 0\<close> rejects no listing, whatever its filled slots.
\<close>

theorem check_advanced_filters_zero:
  "exclude_jobs fc = None \<Longrightarrow> fc_beginners_welcome fc = None \<Longrightarrow> content_keywords fc = None \<Longrightarrow>
   min_slots_available fc = None \<or> min_slots_available fc = Some 0 \<Longrightarrow>
   max_slots_filled fc = None \<or> max_slots_filled fc = Some 0 \<Longrightarrow>
   check_advanced_filters tbl env listing fc h = (Inr True, h)"
  by (auto simp: check_advanced_filters_def no_advanced_filters_def truthy_list_def truthy_int_def
      truthy_str_def)

text \<open>The theorem at both bounds 0 and a listing with three filled slots.\<close>

theorem check_advanced_filters_zero_witness:
  "max_slots_filled (no_filter\<lparr>min_slots_available := Some 0, max_slots_filled := Some 0\<rparr>) = Some 0
   \<and> slots_filled ex_detail = 3
   \<and> check_advanced_filters basic_mapping (detail_env ex_detail) ex_detail
       (no_filter\<lparr>min_slots_available := Some 0, max_slots_filled := Some 0\<rparr>) [] = (Inr True, [])"
  using check_advanced_filters_zero [of
      "no_filter\<lparr>min_slots_available := Some 0, max_slots_filled := Some 0\<rparr>"
      basic_mapping "detail_env ex_detail" ex_detail "[]"]
  by (simp add: no_filter_def ex_detail_def)

section \<open>Properties of the monitor\<close>

subsection \<open>What the methods leave unchanged\<close>

lemma emit_fields [simp]:
  "monitor_targets (emit ev m) = monitor_targets m"
  "expire_threshold (emit ev m) = expire_threshold m"
  "notified_listings (emit ev m) = notified_listings m"
  "last_listings (emit ev m) = last_listings m"
  "last_displayed_ids (emit ev m) = last_displayed_ids m"
  "running (emit ev m) = running m"
  "check_interval (emit ev m) = check_interval m"
  "events (emit ev m) = events m @ [ev]"
  by (simp_all add: emit_def)

lemma set_target_fields [simp]:
  "expire_threshold (set_target i t m) = expire_threshold m"
  "notified_listings (set_target i t m) = notified_listings m"
  "last_listings (set_target i t m) = last_listings m"
  "last_displayed_ids (set_target i t m) = last_displayed_ids m"
  "running (set_target i t m) = running m"
  "events (set_target i t m) = events m"
  by (simp_all add: set_target_def)

lemma remove_fields [simp]:
  "expire_threshold (remove_monitor_target i m) = expire_threshold m"
  "notified_listings (remove_monitor_target i m) = notified_listings m"
  "last_listings (remove_monitor_target i m) = last_listings m"
  "last_displayed_ids (remove_monitor_target i m) = last_displayed_ids m"
  "running (remove_monitor_target i m) = running m"
  by (simp_all add: remove_monitor_target_def)

lemma remove_events:
  "events (remove_monitor_target i m) =
     events m @ (if i \<in> target_ids m then [ShowStatus (WatchStopped i)] else [])"
  by (simp add: remove_monitor_target_def target_ids_def)

lemma remove_targets [simp]:
  "monitor_targets (remove_monitor_target i m) = filter (\<lambda>(k, v). k \<noteq> i) (monitor_targets m)"
proof -
  have "i \<notin> fst ` set xs \<Longrightarrow> filter (\<lambda>(k, v). k \<noteq> i) xs = xs" for xs :: "(int \<times> MonitorTarget) list"
    by (induction xs) auto
  then show ?thesis by (auto simp: remove_monitor_target_def)
qed

lemma target_ids_remove [simp]: "target_ids (remove_monitor_target i m) = target_ids m - {i}"
  by (auto simp: target_ids_def)

lemma target_ids_set_target [simp]: "target_ids (set_target i t m) = target_ids m"
  by (force simp: target_ids_def set_target_def split: if_splits)

lemma target_ids_emit [simp]: "target_ids (emit ev m) = target_ids m"
  by (simp add: target_ids_def)

lemma map_of_filter_neq: "map_of (filter (\<lambda>(k, v). k \<noteq> i) xs) j = (if j = i then None else map_of xs j)"
  by (induction xs) auto

lemma map_of_set_entry:
  "map_of (map (\<lambda>(k, v). if k = i then (k, t) else (k, v)) xs) j
     = (if j = i \<and> j \<in> fst ` set xs then Some t else map_of xs j)"
  by (induction xs) (force simp: image_iff)+

lemma target_of_remove [simp]:
  "target_of (remove_monitor_target i m) j = (if j = i then None else target_of m j)"
  by (simp add: target_of_def map_of_filter_neq)

lemma target_of_set_target [simp]:
  "target_of (set_target i t m) j = (if j = i \<and> j \<in> target_ids m then Some t else target_of m j)"
  by (auto simp: target_of_def set_target_def map_of_set_entry target_ids_def)

lemma target_of_emit [simp]: "target_of (emit ev m) j = target_of m j"
  by (simp add: target_of_def)

lemma target_of_None: "target_of m i = None \<longleftrightarrow> i \<notin> target_ids m"
  by (simp add: target_of_def target_ids_def map_of_eq_None_iff)

text \<open>The outcomes of one iteration of the loop of \<open>check_monitor_targets\<close>.\<close>

lemma check_target_cases:
  assumes "get_listing_detail env i h = (r, h1)"
  shows "check_target env (i, t) (m, h) =
    (case r of
       Inl e \<Rightarrow>
         if is_ValueError e
         then (remove_monitor_target i (emit (ShowStatus (EndedOrDeleted i)) m), h1)
         else (emit (LogError (CheckTargetFailed i e)) m, h1)
     | Inr listing \<Rightarrow>
         if updated_at listing > last_update t
         then (set_target i (t\<lparr>last_update := updated_at listing, time_without_update := 0\<rparr>)
                 (emit (NotifyUpdated listing) m), h1)
         else if total_seconds (now env h1 - last_update t) > real_of_int (expire_threshold m)
         then (remove_monitor_target i
                 (emit (NotifyExpired listing (NoUpdateFor (minutes_of (expire_threshold m))))
                    (set_target i (t\<lparr>time_without_update := total_seconds (now env h1 - last_update t)\<rparr>) m)),
               h1 @ [ClockRead])
         else (set_target i (t\<lparr>time_without_update := total_seconds (now env h1 - last_update t)\<rparr>) m,
               h1 @ [ClockRead]))"
  using assms by (simp add: check_target_def Let_def split: sum.splits)

lemma check_target_frame:
  assumes "check_target env (j, tj) (m, h) = (m', h')"
  shows "expire_threshold m' = expire_threshold m \<and> notified_listings m' = notified_listings m
    \<and> last_listings m' = last_listings m \<and> last_displayed_ids m' = last_displayed_ids m
    \<and> running m' = running m \<and> target_ids m' \<subseteq> target_ids m
    \<and> (\<exists>evs. events m' = events m @ evs)
    \<and> (i \<noteq> j \<longrightarrow> target_of m' i = target_of m i)"
proof -
  obtain r h1 where g: "get_listing_detail env j h = (r, h1)"
    by (cases "get_listing_detail env j h")
  note c = assms[unfolded check_target_cases[OF g]]
  show ?thesis
    using c by (auto simp: remove_events split: sum.splits if_splits)
qed

lemma fold_check_target_frame:
  "fold (check_target env) items (m, h) = (m', h') \<Longrightarrow>
   expire_threshold m' = expire_threshold m \<and> notified_listings m' = notified_listings m
    \<and> last_listings m' = last_listings m \<and> last_displayed_ids m' = last_displayed_ids m
    \<and> running m' = running m \<and> target_ids m' \<subseteq> target_ids m
    \<and> (\<exists>evs. events m' = events m @ evs)
    \<and> (i \<notin> fst ` set items \<longrightarrow> target_of m' i = target_of m i)"
proof (induction items arbitrary: m h)
  case Nil
  then show ?case by simp
next
  case (Cons item items)
  obtain j tj where item: "item = (j, tj)" by (cases item)
  obtain m1 h1 where s: "check_target env (j, tj) (m, h) = (m1, h1)"
    by (cases "check_target env (j, tj) (m, h)")
  have r: "fold (check_target env) items (m1, h1) = (m', h')"
    using s item Cons.prems by simp
  from Cons.IH[OF r] check_target_frame[OF s, of i] item show ?case
    by auto
qed



subsection \<open>The lifecycle of a target\<close>

text \<open>
  Claim C3. Let the registry hold distinct ids and the target \<open>t\<close> under the id \<open>i\<close>.
  When the loop of \<open>check_monitor_targets\<close> reaches \<open>i\<close>, the registry still holds \<open>t\<close>
  under \<open>i\<close>, and with \<open>r\<close> the outcome of the detail request made then: if \<open>r\<close> is a
  \<open>ValueError\<close> (the listing is not found), the registry does not hold \<open>i\<close> after the
  cycle and the status "ended or deleted" is shown; if \<open>r\<close> is a record updated later
  than the stored time, an update is notified and the target holds the new time and the
  staleness 0; otherwise the staleness is the time from the stored update time to the
  clock reading, in seconds, and if it exceeds \<open>expire_threshold\<close> an expiry is notified
  and the registry does not hold \<open>i\<close> after the cycle, while the target stays with this
  staleness if it does not.
\<close>

theorem check_monitor_targets_lifecycle:
  assumes d: "distinct (map fst (monitor_targets m))"
    and sp: "monitor_targets m = pre @ (i, t) # post"
    and f1: "fold (check_target env) pre (m, h) = (m1, h1)"
    and g: "get_listing_detail env i h1 = (r, h2)"
    and res: "check_monitor_targets env m h = (m', h')"
  shows "target_of m1 i = Some t
   \<and> (\<forall>e. r = Inl e \<and> is_ValueError e \<longrightarrow>
         i \<notin> target_ids m' \<and> ShowStatus (EndedOrDeleted i) \<in> set (new_events m m'))
   \<and> (\<forall>listing. r = Inr listing \<and> updated_at listing > last_update t \<longrightarrow>
         NotifyUpdated listing \<in> set (new_events m m')
         \<and> target_of m' i = Some (t\<lparr>last_update := updated_at listing, time_without_update := 0\<rparr>))
   \<and> (\<forall>listing. r = Inr listing \<and> \<not> updated_at listing > last_update t \<longrightarrow>
         (total_seconds (now env h2 - last_update t) > real_of_int (expire_threshold m) \<longrightarrow>
            NotifyExpired listing (NoUpdateFor (minutes_of (expire_threshold m)))
              \<in> set (new_events m m')
            \<and> i \<notin> target_ids m')
       \<and> (\<not> total_seconds (now env h2 - last_update t) > real_of_int (expire_threshold m) \<longrightarrow>
            target_of m' i
              = Some (t\<lparr>time_without_update := total_seconds (now env h2 - last_update t)\<rparr>)))"
proof -
  obtain m2 h3 where s: "check_target env (i, t) (m1, h1) = (m2, h3)"
    by (cases "check_target env (i, t) (m1, h1)")
  have f2: "fold (check_target env) post (m2, h3) = (m', h')"
    using res sp f1 s by (simp add: check_monitor_targets_def)
  have ni: "i \<notin> fst ` set pre" "i \<notin> fst ` set post"
    using d sp by auto
  have t0: "target_of m i = Some t"
    using sp ni(1) by (simp add: target_of_def map_add_Some_iff map_of_eq_None_iff)
  note p1 = fold_check_target_frame[OF f1, of i]
  note p2 = fold_check_target_frame[OF f2, of i]
  have t1: "target_of m1 i = Some t"
    using p1 ni(1) t0 by simp
  then have in1: "i \<in> target_ids m1"
    using target_of_None[of m1 i] by auto
  have thr: "expire_threshold m1 = expire_threshold m"
    using p1 by simp
  obtain e1 where e1: "events m1 = events m @ e1" using p1 by blast
  obtain e3 where e3: "events m' = events m2 @ e3" using p2 by blast
  have keep: "target_of m' i = target_of m2 i"
    using p2 ni(2) by simp
  have gone: "i \<notin> target_ids m2 \<Longrightarrow> i \<notin> target_ids m'"
    using p2 by blast
  have ev: "ev \<in> set (drop (length (events m1)) (events m2)) \<Longrightarrow> ev \<in> set (new_events m m')" for ev
    using e1 e3 set_drop_subset_set_drop[of "length (events m)" "length (events m) + length e1" "events m2"]
    by (auto simp: new_events_def)
  note c = s[unfolded check_target_cases[OF g] thr]
  have a: "\<forall>e. r = Inl e \<and> is_ValueError e \<longrightarrow>
         i \<notin> target_ids m' \<and> ShowStatus (EndedOrDeleted i) \<in> set (new_events m m')"
  proof (intro allI impI)
    fix e assume "r = Inl e \<and> is_ValueError e"
    with c have m2: "m2 = remove_monitor_target i (emit (ShowStatus (EndedOrDeleted i)) m1)"
      by simp
    then have "i \<notin> target_ids m2" by simp
    moreover have "ShowStatus (EndedOrDeleted i) \<in> set (drop (length (events m1)) (events m2))"
      by (simp add: m2 remove_events)
    ultimately show "i \<notin> target_ids m' \<and> ShowStatus (EndedOrDeleted i) \<in> set (new_events m m')"
      using gone ev by blast
  qed
  have b: "\<forall>listing. r = Inr listing \<and> updated_at listing > last_update t \<longrightarrow>
         NotifyUpdated listing \<in> set (new_events m m')
         \<and> target_of m' i = Some (t\<lparr>last_update := updated_at listing, time_without_update := 0\<rparr>)"
  proof (intro allI impI)
    fix listing assume "r = Inr listing \<and> updated_at listing > last_update t"
    with c have m2: "m2 = set_target i (t\<lparr>last_update := updated_at listing, time_without_update := 0\<rparr>)
                 (emit (NotifyUpdated listing) m1)"
      by simp
    have "NotifyUpdated listing \<in> set (drop (length (events m1)) (events m2))"
      by (simp add: m2)
    moreover have "target_of m2 i = Some (t\<lparr>last_update := updated_at listing, time_without_update := 0\<rparr>)"
      using in1 by (simp add: m2)
    ultimately show "NotifyUpdated listing \<in> set (new_events m m')
         \<and> target_of m' i = Some (t\<lparr>last_update := updated_at listing, time_without_update := 0\<rparr>)"
      using keep ev by simp
  qed
  have cc: "\<forall>listing. r = Inr listing \<and> \<not> updated_at listing > last_update t \<longrightarrow>
         (total_seconds (now env h2 - last_update t) > real_of_int (expire_threshold m) \<longrightarrow>
            NotifyExpired listing (NoUpdateFor (minutes_of (expire_threshold m)))
              \<in> set (new_events m m')
            \<and> i \<notin> target_ids m')
       \<and> (\<not> total_seconds (now env h2 - last_update t) > real_of_int (expire_threshold m) \<longrightarrow>
            target_of m' i
              = Some (t\<lparr>time_without_update := total_seconds (now env h2 - last_update t)\<rparr>))"
  proof (intro allI impI)
    fix listing assume as: "r = Inr listing \<and> \<not> updated_at listing > last_update t"
    show "(total_seconds (now env h2 - last_update t) > real_of_int (expire_threshold m) \<longrightarrow>
            NotifyExpired listing (NoUpdateFor (minutes_of (expire_threshold m)))
              \<in> set (new_events m m')
            \<and> i \<notin> target_ids m')
       \<and> (\<not> total_seconds (now env h2 - last_update t) > real_of_int (expire_threshold m) \<longrightarrow>
            target_of m' i
              = Some (t\<lparr>time_without_update := total_seconds (now env h2 - last_update t)\<rparr>))"
    proof (cases "total_seconds (now env h2 - last_update t) > real_of_int (expire_threshold m)")
      case True
      with c as have m2: "m2 = remove_monitor_target i
                 (emit (NotifyExpired listing (NoUpdateFor (minutes_of (expire_threshold m))))
                    (set_target i (t\<lparr>time_without_update := total_seconds (now env h2 - last_update t)\<rparr>) m1))"
        by simp
      then have "i \<notin> target_ids m2" by simp
      moreover have "NotifyExpired listing (NoUpdateFor (minutes_of (expire_threshold m)))
          \<in> set (drop (length (events m1)) (events m2))"
        by (simp add: m2 remove_events)
      ultimately show ?thesis using True gone ev by blast
    next
      case False
      with c as have m2: "m2 = set_target i (t\<lparr>time_without_update := total_seconds (now env h2 - last_update t)\<rparr>) m1"
        by simp
      have "target_of m2 i = Some (t\<lparr>time_without_update := total_seconds (now env h2 - last_update t)\<rparr>)"
        using in1 by (simp add: m2)
      then show ?thesis using False keep by simp
    qed
  qed
  from t1 a b cc show ?thesis by blast
qed



text \<open>
  The theorem at the three targets of \<open>ex_monitor\<close>, with a threshold of 300 seconds and
  a clock at 301 seconds: target 1 is not found and removed, target 2 is updated,
  target 3 has gone 301 seconds without an update and is removed as expired.
\<close>

theorem check_monitor_targets_lifecycle_witness:
  "check_monitor_targets lifecycle_env ex_monitor [] =
     (ex_monitor\<lparr>monitor_targets :=
                   [(2, \<lparr>listing_id = 2, last_update = 500, time_without_update = 0\<rparr>)],
        events := [ShowStatus (EndedOrDeleted 1), ShowStatus (WatchStopped 1),
                   NotifyUpdated (ex_listing 2 500 None 60),
                   NotifyExpired (ex_listing 3 0 None 60) (NoUpdateFor 5),
                   ShowStatus (WatchStopped 3)]\<rparr>,
      [DetailCall 1, DetailCall 2, DetailCall 3, ClockRead])
   \<and> distinct (map fst (monitor_targets ex_monitor))
   \<and> total_seconds (301000000 - 0) > real_of_int 300
   \<and> 3 \<notin> target_ids (fst (check_monitor_targets lifecycle_env ex_monitor []))
   \<and> NotifyExpired (ex_listing 3 0 None 60) (NoUpdateFor 5)
       \<in> set (new_events ex_monitor (fst (check_monitor_targets lifecycle_env ex_monitor [])))
   \<and> 1 \<notin> target_ids (fst (check_monitor_targets lifecycle_env ex_monitor []))
   \<and> target_of (fst (check_monitor_targets lifecycle_env ex_monitor [])) 2
       = Some \<lparr>listing_id = 2, last_update = 500, time_without_update = 0\<rparr>"
proof -
  let ?t1 = "\<lparr>listing_id = 1, last_update = 0, time_without_update = 0\<rparr>"
  let ?t2 = "\<lparr>listing_id = 2, last_update = 100, time_without_update = 0\<rparr>"
  let ?t3 = "\<lparr>listing_id = 3, last_update = 0, time_without_update = 0\<rparr>"
  let ?res = "check_monitor_targets lifecycle_env ex_monitor []"
  have d: "distinct (map fst (monitor_targets ex_monitor))"
    by (simp add: ex_monitor_def)
  have res: "?res = (fst ?res, snd ?res)" by simp
  have f: "fold (check_target lifecycle_env) pre (ex_monitor, []) =
      (fst (fold (check_target lifecycle_env) pre (ex_monitor, [])),
       snd (fold (check_target lifecycle_env) pre (ex_monitor, [])))" for pre
    by simp
  have g1: "get_listing_detail lifecycle_env 1 hh = (Inl ValueError, hh @ [DetailCall 1])" for hh
    by (simp add: get_listing_detail_def lifecycle_env_def)
  have g2: "get_listing_detail lifecycle_env 2 hh = (Inr (ex_listing 2 500 None 60), hh @ [DetailCall 2])" for hh
    by (simp add: get_listing_detail_def lifecycle_env_def)
  have g3: "get_listing_detail lifecycle_env 3 hh = (Inr (ex_listing 3 0 None 60), hh @ [DetailCall 3])" for hh
    by (simp add: get_listing_detail_def lifecycle_env_def)
  have s1: "monitor_targets ex_monitor = [] @ (1, ?t1) # [(2, ?t2), (3, ?t3)]"
    by (simp add: ex_monitor_def)
  have s2: "monitor_targets ex_monitor = [(1, ?t1)] @ (2, ?t2) # [(3, ?t3)]"
    by (simp add: ex_monitor_def)
  have s3: "monitor_targets ex_monitor = [(1, ?t1), (2, ?t2)] @ (3, ?t3) # []"
    by (simp add: ex_monitor_def)
  have n: "now lifecycle_env hh = 301000000" "expire_threshold ex_monitor = 300" for hh
    by (simp_all add: lifecycle_env_def ex_monitor_def)
  have a: "1 \<notin> target_ids (fst ?res)"
    using check_monitor_targets_lifecycle [OF d s1 f g1 res]
    by (simp add: is_ValueError_def)
  have b: "target_of (fst ?res) 2 = Some \<lparr>listing_id = 2, last_update = 500, time_without_update = 0\<rparr>"
    using check_monitor_targets_lifecycle [OF d s2 f g2 res]
    by (simp add: ex_listing_def)
  have c: "3 \<notin> target_ids (fst ?res)
     \<and> NotifyExpired (ex_listing 3 0 None 60) (NoUpdateFor 5) \<in> set (new_events ex_monitor (fst ?res))"
    using check_monitor_targets_lifecycle [OF d s3 f g3 res]
    by (simp add: ex_listing_def n total_seconds_def minutes_of_def)
  have e: "check_monitor_targets lifecycle_env ex_monitor [] =
     (ex_monitor\<lparr>monitor_targets :=
                   [(2, \<lparr>listing_id = 2, last_update = 500, time_without_update = 0\<rparr>)],
        events := [ShowStatus (EndedOrDeleted 1), ShowStatus (WatchStopped 1),
                   NotifyUpdated (ex_listing 2 500 None 60),
                   NotifyExpired (ex_listing 3 0 None 60) (NoUpdateFor 5),
                   ShowStatus (WatchStopped 3)]\<rparr>,
      [DetailCall 1, DetailCall 2, DetailCall 3, ClockRead])"
    by (simp add: check_monitor_targets_def check_target_def lifecycle_env_def ex_monitor_def
        get_listing_detail_def is_ValueError_def remove_monitor_target_def emit_def
        set_target_def ex_listing_def total_seconds_def minutes_of_def Let_def)
  have t: "total_seconds (301000000 - 0) > real_of_int 300"
    by (simp add: total_seconds_def)
  from d a b c e t show ?thesis
    by blast
qed

subsection \<open>The expiration check\<close>




text \<open>The loop over the previous snapshot.\<close>

lemma expire_loop_frame:
  "expire_threshold (expire_loop S ls m) = expire_threshold m
   \<and> notified_listings (expire_loop S ls m) = notified_listings m
   \<and> last_listings (expire_loop S ls m) = last_listings m
   \<and> last_displayed_ids (expire_loop S ls m) = last_displayed_ids m
   \<and> running (expire_loop S ls m) = running m
   \<and> target_ids (expire_loop S ls m) = target_ids m - (S \<inter> lid ` set ls)
   \<and> (j \<notin> S \<inter> lid ` set ls \<longrightarrow> target_of (expire_loop S ls m) j = target_of m j)"
  by (induction ls arbitrary: m) auto

lemma expire_loop_events:
  "\<exists>evs. events (expire_loop S ls m) = events m @ evs
     \<and> (\<forall>l\<in>set ls. lid l \<in> S \<longrightarrow> NotifyExpired l Disappeared \<in> set evs)
     \<and> (\<forall>l r. NotifyExpired l r \<in> set evs \<longrightarrow> lid l \<in> S \<and> l \<in> set ls \<and> r = Disappeared)
     \<and> (\<forall>ls n b. NotifyFound ls n b \<notin> set evs)"
proof (induction ls arbitrary: m)
  case Nil
  then show ?case by simp
next
  case (Cons l ls)
  let ?m1 = "if lid l \<in> S then remove_monitor_target (lid l) (emit (NotifyExpired l Disappeared) m) else m"
  obtain evs where evs: "events (expire_loop S ls ?m1) = events ?m1 @ evs"
     "\<forall>l\<in>set ls. lid l \<in> S \<longrightarrow> NotifyExpired l Disappeared \<in> set evs"
     "\<forall>l r. NotifyExpired l r \<in> set evs \<longrightarrow> lid l \<in> S \<and> l \<in> set ls \<and> r = Disappeared"
     "\<forall>ls n b. NotifyFound ls n b \<notin> set evs"
    using Cons.IH[of ?m1] by blast
  show ?case
  proof (cases "lid l \<in> S")
    case True
    then have "events (expire_loop S (l # ls) m)
        = events m @ (NotifyExpired l Disappeared
             # (if lid l \<in> target_ids m then [ShowStatus (WatchStopped (lid l))] else []) @ evs)"
      using evs(1) by (simp add: remove_events)
    then show ?thesis using evs(2,3,4) True
      by (intro exI[of _ "NotifyExpired l Disappeared
             # (if lid l \<in> target_ids m then [ShowStatus (WatchStopped (lid l))] else []) @ evs"])
         auto
  next
    case False
    then have "events (expire_loop S (l # ls) m) = events m @ evs"
      using evs(1) by simp
    then show ?thesis using evs(2,3,4) False
      by (intro exI[of _ evs]) auto
  qed
qed


lemma update_last_listings [simp]:
  "target_ids (m\<lparr>last_listings := ls\<rparr>) = target_ids m"
  "target_of (m\<lparr>last_listings := ls\<rparr>) j = target_of m j"
  "new_events m (m'\<lparr>last_listings := ls\<rparr>) = new_events m m'"
  by (simp_all add: target_ids_def target_of_def new_events_def)

lemma check_expired_by_order_cases:
  "check_expired_by_order listings m =
    (if length listings < 2 \<or> monitor_targets m = [] then m
     else if last_listings m = [] then m\<lparr>last_listings := listings\<rparr>
     else (expire_loop
             ((lid ` set (take (last_new_index listings + 1) (last_listings m)) - lid ` set listings)
                \<inter> target_ids m)
             (last_listings m) m)\<lparr>last_listings := listings\<rparr>)"
  by (simp add: check_expired_by_order_def Let_def target_ids_def)



subsection \<open>Events and notified ids\<close>

lemma found_ids_simps [simp]:
  "found_ids [] = {}"
  "found_ids (xs @ ys) = found_ids xs \<union> found_ids ys"
  "found_ids (NotifyFound ls n b # xs) = lid ` set ls \<union> found_ids xs"
  "found_ids (NotifyExpired l r # xs) = found_ids xs"
  "found_ids (NotifyUpdated l # xs) = found_ids xs"
  "found_ids (ShowStatus s # xs) = found_ids xs"
  "found_ids (ShowListingsTable ls # xs) = found_ids xs"
  "found_ids (LogError er # xs) = found_ids xs"
  by (simp_all add: found_ids_def)


lemma found_ids_none: "(\<forall>ls n b. NotifyFound ls n b \<notin> set evs) \<Longrightarrow> found_ids evs = {}"
proof (induction evs)
  case Nil
  then show ?case by simp
next
  case (Cons ev evs)
  then have "found_ids evs = {}" by simp
  moreover have "\<And>ls n b. ev \<noteq> NotifyFound ls n b" using Cons.prems by auto
  ultimately show ?case by (cases ev) fastforce+
qed

lemma records_found_refl [simp]: "records_found m m"
  by (simp add: records_found_def)

lemma records_found_trans:
  assumes "records_found m m1" and "records_found m1 m2"
  shows "records_found m m2"
proof -
  from assms(1) obtain e1 where e1: "events m1 = events m @ e1"
    "found_ids e1 \<inter> notified_listings m = {}"
    "notified_listings m1 = notified_listings m \<union> found_ids e1"
    unfolding records_found_def by blast
  from assms(2) obtain e2 where e2: "events m2 = events m1 @ e2"
    "found_ids e2 \<inter> notified_listings m1 = {}"
    "notified_listings m2 = notified_listings m1 \<union> found_ids e2"
    unfolding records_found_def by blast
  have "events m2 = events m @ (e1 @ e2)"
    using e1(1) e2(1) by simp
  moreover have "found_ids (e1 @ e2) \<inter> notified_listings m = {}"
    using e1(2,3) e2(2) by auto
  moreover have "notified_listings m2 = notified_listings m \<union> found_ids (e1 @ e2)"
    using e1(3) e2(3) by auto
  ultimately show ?thesis
    unfolding records_found_def by blast
qed

lemma records_found_quiet:
  assumes "events m' = events m @ evs" and "found_ids evs = {}"
    and "notified_listings m' = notified_listings m"
  shows "records_found m m'"
  unfolding records_found_def using assms by (intro exI[of _ evs]) simp

lemma records_found_new_events:
  assumes "records_found m m'"
  shows "notified_listings m \<subseteq> notified_listings m'
     \<and> found_ids (new_events m m') \<inter> notified_listings m = {}
     \<and> notified_listings m' = notified_listings m \<union> found_ids (new_events m m')"
proof -
  from assms obtain evs where e: "events m' = events m @ evs"
    "found_ids evs \<inter> notified_listings m = {}"
    "notified_listings m' = notified_listings m \<union> found_ids evs"
    unfolding records_found_def by blast
  have "new_events m m' = evs" by (simp add: new_events_def e(1))
  then show ?thesis using e(2,3) by auto
qed

lemma quiet_refl [simp]: "quiet m m"
  by (simp add: quiet_def same_config_def)

lemma quiet_trans:
  assumes "quiet m m1" and "quiet m1 m2"
  shows "quiet m m2"
proof -
  from assms(1) obtain e1 where e1: "events m1 = events m @ e1" "found_ids e1 = {}"
    unfolding quiet_def by blast
  from assms(2) obtain e2 where e2: "events m2 = events m1 @ e2" "found_ids e2 = {}"
    unfolding quiet_def by blast
  have "events m2 = events m @ (e1 @ e2) \<and> found_ids (e1 @ e2) = {}"
    using e1 e2 by simp
  then have "\<exists>evs. events m2 = events m @ evs \<and> found_ids evs = {}"
    by blast
  then show ?thesis
    using assms unfolding quiet_def same_config_def by simp
qed

lemma quiet_emit: "found_ids [ev] = {} \<Longrightarrow> quiet m (emit ev m)"
  unfolding quiet_def same_config_def by simp

lemma quiet_search_step:
  assumes "quiet m m'"
  shows "search_step m m'"
proof -
  from assms obtain evs where "events m' = events m @ evs" "found_ids evs = {}"
    unfolding quiet_def by blast
  then have "records_found m m'"
    using assms records_found_quiet[of m' m evs] unfolding quiet_def by simp
  then show ?thesis
    using assms unfolding quiet_def search_step_def by simp
qed

lemma search_step_refl [simp]: "search_step m m"
  by (simp add: search_step_def same_config_def)

lemma search_step_trans:
  assumes "search_step m m1" and "search_step m1 m2"
  shows "search_step m m2"
proof -
  have "records_found m m2"
    using assms records_found_trans unfolding search_step_def by blast
  then show ?thesis
    using assms unfolding search_step_def same_config_def by simp
qed


text \<open>The searches and the display of the targets.\<close>

lemma notify_new_step: "search_step m (notify_new name notify fl m)"
proof (cases "notify \<and> filter (\<lambda>l. lid l \<notin> notified_listings m) fl \<noteq> []")
  case True
  let ?new = "filter (\<lambda>l. lid l \<notin> notified_listings m) fl"
  have "records_found m (notify_new name notify fl m)"
    unfolding records_found_def
    by (rule exI[of _ "[NotifyFound ?new name (monitor_targets m = [])]"])
       (use True in \<open>auto simp: notify_new_def Let_def emit_def\<close>)
  then show ?thesis
    using True by (simp add: search_step_def same_config_def notify_new_def Let_def emit_def)
next
  case False
  then have "notify_new name notify fl m = m"
    by (auto simp: notify_new_def Let_def)
  then show ?thesis by simp
qed

lemma search_listings_step:
  assumes "search_listings tbl env fc name notify m h = Some (res, m', h')"
  shows "search_step m m'"
proof -
  have q: "search_step m (emit (LogError er) m)" for er
    by (rule quiet_search_step, rule quiet_emit) simp
  from assms consider er where "m' = emit (LogError er) m" | fl where "m' = notify_new name notify fl m"
    unfolding search_listings_def by (auto split: option.splits sum.splits prod.splits)
  then show ?thesis
    using q notify_new_step by cases simp_all
qed

lemma search_conditions_step:
  "search_conditions tbl env conds m h = Some (res, m', h') \<Longrightarrow> search_step m m'"
proof (induction conds arbitrary: m h res)
  case Nil
  then show ?case by simp
next
  case (Cons c conds)
  obtain fc name where c: "c = (fc, name)" by (cases c)
  from Cons.prems c obtain r1 m1 h1 r2 where
    s1: "search_listings tbl env fc name True m h = Some (r1, m1, h1)"
    and s2: "search_conditions tbl env conds m1 h1 = Some (r2, m', h')"
    by (auto split: option.splits prod.splits)
  from search_listings_step[OF s1] Cons.IH[OF s2] show ?case
    by (rule search_step_trans)
qed

lemma show_target_quiet: "show_target env item (m, h) = (m', h') \<Longrightarrow> quiet m m'"
  by (auto simp: show_target_def quiet_emit split: prod.splits sum.splits)

lemma fold_show_target_quiet:
  "fold (show_target env) items (m, h) = (m', h') \<Longrightarrow> quiet m m'"
proof (induction items arbitrary: m h)
  case Nil
  then show ?case by simp
next
  case (Cons item items)
  obtain m1 h1 where s: "show_target env item (m, h) = (m1, h1)"
    by (cases "show_target env item (m, h)")
  have r: "fold (show_target env) items (m1, h1) = (m', h')"
    using s Cons.prems by simp
  from show_target_quiet[OF s] Cons.IH[OF r] show ?case
    by (rule quiet_trans)
qed

lemma show_monitor_targets_quiet: "show_monitor_targets env m h = (m', h') \<Longrightarrow> quiet m m'"
proof (cases "monitor_targets m = []")
  case True
  assume "show_monitor_targets env m h = (m', h')"
  with True show ?thesis by (simp add: show_monitor_targets_def)
next
  case False
  assume "show_monitor_targets env m h = (m', h')"
  with False have "fold (show_target env) (monitor_targets m)
      (emit (ShowStatus (TargetsHeader (length (monitor_targets m)))) m, h) = (m', h')"
    by (simp add: show_monitor_targets_def)
  from fold_show_target_quiet[OF this] show ?thesis
    by (rule quiet_trans[rotated]) (simp add: quiet_emit)
qed


lemma silent_refl [simp]: "silent m m"
  by (simp add: silent_def)

lemma silent_trans:
  assumes "silent m m1" and "silent m1 m2"
  shows "silent m m2"
proof -
  from assms(1) obtain e1 where e1: "events m1 = events m @ e1" "found_ids e1 = {}"
    unfolding silent_def by blast
  from assms(2) obtain e2 where e2: "events m2 = events m1 @ e2" "found_ids e2 = {}"
    unfolding silent_def by blast
  have "events m2 = events m @ (e1 @ e2) \<and> found_ids (e1 @ e2) = {}"
    using e1 e2 by simp
  then have "\<exists>evs. events m2 = events m @ evs \<and> found_ids evs = {}"
    by blast
  then show ?thesis
    using assms unfolding silent_def by simp
qed

lemma silent_emit: "found_ids [ev] = {} \<Longrightarrow> silent m (emit ev m)"
  unfolding silent_def by simp

lemma quiet_silent: "quiet m m' \<Longrightarrow> silent m m'"
  unfolding quiet_def silent_def by simp

lemma silent_records_found:
  assumes "silent m m'"
  shows "records_found m m'"
proof -
  from assms obtain evs where "events m' = events m @ evs" "found_ids evs = {}"
    unfolding silent_def by blast
  then show ?thesis
    using assms records_found_quiet[of m' m evs] unfolding silent_def by simp
qed

lemma silent_set_target: "silent m (set_target i t m)"
  by (simp add: silent_def)

lemma silent_remove: "silent m (remove_monitor_target i m)"
  unfolding silent_def by (simp add: remove_events)

lemma silent_update_last_listings: "silent m (m\<lparr>last_listings := ls\<rparr>)"
  by (simp add: silent_def)

lemma silent_update_displayed: "silent m (m\<lparr>last_displayed_ids := s\<rparr>)"
  by (simp add: silent_def)

lemma silent_update_running: "silent m (m\<lparr>running := s\<rparr>)"
  by (simp add: silent_def)

lemma silent_update_targets: "silent m (m\<lparr>monitor_targets := s\<rparr>)"
  by (simp add: silent_def)

lemma check_target_silent:
  assumes "check_target env (j, tj) (m, h) = (m', h')"
  shows "silent m m'"
proof -
  obtain r h1 where g: "get_listing_detail env j h = (r, h1)"
    by (cases "get_listing_detail env j h")
  have e: "silent m (emit ev m)" if "found_ids [ev] = {}" for ev m
    using that by (rule silent_emit)
  have a: "silent m (remove_monitor_target j (emit (ShowStatus (EndedOrDeleted j)) m))"
    by (rule silent_trans[OF e silent_remove]) simp
  have b: "silent m (emit (LogError (CheckTargetFailed j er)) m)" for er
    by (rule e) simp
  have c: "silent m (set_target j t' (emit (NotifyUpdated l) m))" for t' l
    by (rule silent_trans[OF e silent_set_target]) simp
  have d: "silent m (remove_monitor_target j (emit (NotifyExpired l rs) (set_target j t' m)))" for l rs t'
    by (rule silent_trans[OF silent_set_target silent_trans[OF e silent_remove]]) simp
  note cs = assms[unfolded check_target_cases[OF g]]
  show ?thesis
    using cs a b c d silent_set_target[of m j]
    by (auto split: sum.splits if_splits)
qed

lemma fold_check_target_silent:
  "fold (check_target env) items (m, h) = (m', h') \<Longrightarrow> silent m m'"
proof (induction items arbitrary: m h)
  case Nil
  then show ?case by simp
next
  case (Cons item items)
  obtain j tj where item: "item = (j, tj)" by (cases item)
  obtain m1 h1 where s: "check_target env (j, tj) (m, h) = (m1, h1)"
    by (cases "check_target env (j, tj) (m, h)")
  have r: "fold (check_target env) items (m1, h1) = (m', h')"
    using s item Cons.prems by simp
  from check_target_silent[OF s] Cons.IH[OF r] show ?case
    by (rule silent_trans)
qed

lemma expire_loop_silent: "silent m (expire_loop S ls m)"
proof -
  obtain evs where "events (expire_loop S ls m) = events m @ evs"
    "\<forall>ls n b. NotifyFound ls n b \<notin> set evs"
    using expire_loop_events[of S ls m] by blast
  then show ?thesis
    using expire_loop_frame[of S ls m] found_ids_none[of evs] unfolding silent_def by auto
qed

lemma check_expired_by_order_silent: "silent m (check_expired_by_order listings m)"
  unfolding check_expired_by_order_cases
  using silent_trans[OF expire_loop_silent silent_update_last_listings] silent_update_last_listings
  by simp

lemma display_new_silent: "silent m (display_new ls m)"
proof -
  have "silent m ((emit (ShowListingsTable ls) m)\<lparr>last_displayed_ids := s\<rparr>)" for s
    by (rule silent_trans[OF silent_emit silent_update_displayed]) simp
  then show ?thesis
    by (simp add: display_new_def Let_def)
qed

lemma continuous_search_step_records:
  assumes "continuous_search_step tbl env conds enable m h = Some (m', h')"
  shows "records_found m m'"
proof -
  from assms obtain merged m1 h1 where
    sc: "search_conditions tbl env conds m h = Some (merged, m1, h1)"
    by (auto simp: continuous_search_step_def split: option.splits)
  have r1: "records_found m m1"
    using search_conditions_step[OF sc] by (simp add: search_step_def)
  have e: "silent x (emit ev x)" if "found_ids [ev] = {}" for ev x
    using that by (rule silent_emit)
  have "silent m1 m'"
  proof (cases "sort_listings merged")
    case (Inl er)
    have "silent m1 (emit (ShowStatus (LoopError er)) (emit (LogError (SearchLoopError er)) m1))"
      by (rule silent_trans[OF e e]) simp_all
    then show ?thesis
      using assms sc Inl by (auto simp: continuous_search_step_def)
  next
    case (Inr all_listings)
    show ?thesis
    proof (cases "monitor_targets m1 = []")
      case True
      have "silent m1 (emit (ShowStatus (CheckDone (length all_listings)
            (length (monitor_targets (display_new all_listings m1))))) (display_new all_listings m1))"
        by (rule silent_trans[OF display_new_silent e]) simp
      then show ?thesis
        using assms sc Inr True by (simp add: continuous_search_step_def Let_def)
    next
      case False
      obtain ma ha where sh: "show_monitor_targets env m1 h1 = (ma, ha)"
        by (cases "show_monitor_targets env m1 h1")
      define mb where "mb = (if enable \<and> all_listings \<noteq> []
                                then check_expired_by_order all_listings ma else ma)"
      obtain mc hc where ct: "check_monitor_targets env mb ha = (mc, hc)"
        by (cases "check_monitor_targets env mb ha")
      have m': "m' = emit (ShowStatus (CheckDone (length all_listings) (length (monitor_targets mc)))) mc"
        using assms sc Inr False sh ct
        by (cases "enable \<and> all_listings \<noteq> []")
           (simp_all add: continuous_search_step_def Let_def mb_def)
      have s1: "silent m1 ma" using show_monitor_targets_quiet[OF sh] by (rule quiet_silent)
      have s2: "silent ma mb" by (simp add: mb_def check_expired_by_order_silent)
      have s3: "silent mb mc"
        using ct fold_check_target_silent unfolding check_monitor_targets_def by blast
      have s4: "silent mc m'" unfolding m' by (rule e) simp
      show ?thesis
        using s1 s2 s3 s4 silent_trans by blast
    qed
  qed
  then show ?thesis
    using r1 silent_records_found records_found_trans by blast
qed

lemma run_command_records:
  assumes "run_command tbl env c (m, h) = Some (m', h')"
  shows "records_found m m'"
proof (cases c)
  case (Search fc name notify)
  with assms obtain res where "search_listings tbl env fc name notify m h = Some (res, m', h')"
    by auto
  from search_listings_step[OF this] show ?thesis by (simp add: search_step_def)
next
  case (Cycle conds enable)
  with assms show ?thesis using continuous_search_step_records by simp
next
  case (AddTarget i)
  have e: "silent x (emit ev x)" if "found_ids [ev] = {}" for ev x
    using that by (rule silent_emit)
  have a: "silent m (emit (ShowStatus (WatchStarted i)) (m\<lparr>monitor_targets := s\<rparr>))" for s
    by (rule silent_trans[OF silent_update_targets e]) simp
  have b: "silent m (emit (ShowStatus (AddFailed i)) (emit (LogError (AddTargetFailed er)) m))" for er
    by (rule silent_trans[OF e e]) simp_all
  have "silent m m'"
    using assms AddTarget a b by (auto simp: add_monitor_target_def split: prod.splits sum.splits)
  then show ?thesis by (rule silent_records_found)
next
  case (RemoveTarget i)
  with assms show ?thesis using silent_remove silent_records_found by auto
next
  case ClearDisplayed
  have "silent m (emit (ShowStatus DisplayedCleared) (m\<lparr>last_displayed_ids := {}\<rparr>))"
    by (rule silent_trans[OF silent_update_displayed silent_emit]) simp
  with assms ClearDisplayed show ?thesis
    using silent_records_found by (auto simp: clear_displayed_listings_def)
next
  case Stop
  have "silent m (emit (ShowStatus Stopping) (m\<lparr>running := False\<rparr>))"
    by (rule silent_trans[OF silent_update_running silent_emit]) simp
  with assms Stop show ?thesis
    using silent_records_found by (auto simp: stop_monitoring_def)
qed

lemma run_commands_records:
  "run_commands tbl env cs (m, h) = Some (m', h') \<Longrightarrow> records_found m m'"
proof (induction cs arbitrary: m h)
  case Nil
  then show ?case by simp
next
  case (Cons c cs)
  then obtain m1 h1 where s: "run_command tbl env c (m, h) = Some (m1, h1)"
    and r: "run_commands tbl env cs (m1, h1) = Some (m', h')"
    by (auto split: option.splits)
  from run_command_records[OF s] Cons.IH[OF r] show ?case
    by (rule records_found_trans)
qed

text \<open>
  Claim C6. The ids that a search returns as newly found are those it hands to
  \<open>notify_found\<close>; a search called with \<open>notify = False\<close> announces none. Over any
  sequence of searches, iterations of the loop and other method calls that does not
  clear the notified set: the notified set only grows; no id that
  was notified before the sequence is announced as found during it; every id announced
  as found during it is in the notified set afterwards, which holds exactly the ids
  notified before and the ids announced; \<open>clear_notified_listings\<close> empties the set and
  leaves the registry as it is.
\<close>

theorem notified_dedup:
  assumes "run_commands tbl env cs (m, h) = Some (m', h')"
  shows "notified_listings m \<subseteq> notified_listings m'
     \<and> found_ids (new_events m m') \<inter> notified_listings m = {}
     \<and> found_ids (new_events m m') \<subseteq> notified_listings m'
     \<and> notified_listings m' = notified_listings m \<union> found_ids (new_events m m')
     \<and> notified_listings (clear_notified_listings m') = {}
     \<and> monitor_targets (clear_notified_listings m') = monitor_targets m'"
  using records_found_new_events[OF run_commands_records[OF assms]]
  by (auto simp: clear_notified_listings_def)

subsection \<open>One iteration of the loop\<close>

lemma step_no_targets:
  assumes "search_conditions tbl env conds m h = Some (merged, m1, h1)"
    and "sort_listings merged = Inr all_listings" and "monitor_targets m1 = []"
  shows "continuous_search_step tbl env conds enable m h =
     Some (emit (ShowStatus (CheckDone (length all_listings)
                   (length (monitor_targets (display_new all_listings m1)))))
             (display_new all_listings m1), h1)"
  using assms by (simp add: continuous_search_step_def Let_def)


lemma display_new_fields [simp]:
  "monitor_targets (display_new ls m) = monitor_targets m"
  "last_listings (display_new ls m) = last_listings m"
  by (simp_all add: display_new_def Let_def)



lemma search_conditions_append:
  "search_conditions tbl env (xs @ ys) m h =
     (case search_conditions tbl env xs m h of
        None \<Rightarrow> None
      | Some (r1, m1, h1) \<Rightarrow>
          map_option (\<lambda>(r2, m2, h2). (r1 @ r2, m2, h2)) (search_conditions tbl env ys m1 h1))"
proof (induction xs arbitrary: m h)
  case Nil
  show ?case by (simp add: option.map_ident case_prod_unfold)
next
  case (Cons c xs)
  obtain fc name where c: "c = (fc, name)" by (cases c)
  show ?case
  proof (cases "search_listings tbl env fc name True m h")
    case None
    then show ?thesis by (simp add: c)
  next
    case (Some a)
    obtain l1 ma ha where a: "a = (l1, ma, ha)" by (cases a)
    show ?thesis
    proof (cases "search_conditions tbl env xs ma ha")
      case None
      then show ?thesis by (simp add: c Some a Cons.IH)
    next
      case (Some b)
      obtain l2 mb hb where b: "b = (l2, mb, hb)" by (cases b)
      show ?thesis
        by (cases "search_conditions tbl env ys mb hb")
           (auto simp: c \<open>search_listings tbl env fc name True m h = Some a\<close> a Some b Cons.IH)
    qed
  qed
qed

lemma search_listings_failure:
  assumes "search_failure tbl env fc h = Some (e, h2)"
  shows "search_listings tbl env fc name notify m h = Some ([], emit (LogError (SearchFailed e)) m, h2)"
  using assms
  by (auto simp: search_failure_def search_listings_def split: option.splits sum.splits prod.splits)

text \<open>
  Claim C8. When the search for one condition ends with an exception, after the
  conditions \<open>pre\<close> gave the results \<open>r1\<close>, \<open>search_listings\<close> returns the empty list and
  logs the failure, and the iteration goes on with the remaining conditions: the merged
  results are \<open>r1\<close> followed by the results of the remaining conditions. When the detail
  request for one target raises, the check of this target removes it (\<open>ValueError\<close>) or
  logs the failure (another exception), the loop goes on with the remaining targets,
  and each of them is still in the registry with its own entry.
\<close>

theorem failure_isolation:
  "(search_conditions tbl env pre m h = Some (r1, m1, h1)
      \<and> search_failure tbl env fc h1 = Some (e, h2) \<longrightarrow>
        search_listings tbl env fc name True m1 h1
          = Some ([], emit (LogError (SearchFailed e)) m1, h2)
        \<and> search_conditions tbl env (pre @ (fc, name) # rest) m h
          = map_option (\<lambda>(r2, m2, h3). (r1 @ r2, m2, h3))
              (search_conditions tbl env rest (emit (LogError (SearchFailed e)) m1) h2))
   \<and> (distinct (map fst (monitor_targets m)) \<and> monitor_targets m = before @ (i, t) # after
      \<and> fold (check_target env) before (m, h) = (m3, h3)
      \<and> get_listing_detail env i h3 = (Inl e', h4) \<longrightarrow>
        check_target env (i, t) (m3, h3)
          = (if is_ValueError e'
             then remove_monitor_target i (emit (ShowStatus (EndedOrDeleted i)) m3)
             else emit (LogError (CheckTargetFailed i e')) m3, h4)
        \<and> check_monitor_targets env m h
          = fold (check_target env) after (check_target env (i, t) (m3, h3))
        \<and> (\<forall>j tj. (j, tj) \<in> set after \<longrightarrow>
              target_of (fst (check_target env (i, t) (m3, h3))) j = Some tj))"
proof -
  have a: "search_listings tbl env fc name True m1 h1
          = Some ([], emit (LogError (SearchFailed e)) m1, h2)
        \<and> search_conditions tbl env (pre @ (fc, name) # rest) m h
          = map_option (\<lambda>(r2, m2, h3). (r1 @ r2, m2, h3))
              (search_conditions tbl env rest (emit (LogError (SearchFailed e)) m1) h2)"
    if sc: "search_conditions tbl env pre m h = Some (r1, m1, h1)"
      and sf: "search_failure tbl env fc h1 = Some (e, h2)"
  proof -
    note sl = search_listings_failure[OF sf, of name True m1]
    have "search_conditions tbl env ((fc, name) # rest) m1 h1
        = search_conditions tbl env rest (emit (LogError (SearchFailed e)) m1) h2"
      by (simp add: sl split: option.splits)
    then show ?thesis
      using sl sc by (simp add: search_conditions_append)
  qed
  have b: "check_target env (i, t) (m3, h3)
          = (if is_ValueError e'
             then remove_monitor_target i (emit (ShowStatus (EndedOrDeleted i)) m3)
             else emit (LogError (CheckTargetFailed i e')) m3, h4)
        \<and> check_monitor_targets env m h
          = fold (check_target env) after (check_target env (i, t) (m3, h3))
        \<and> (\<forall>j tj. (j, tj) \<in> set after \<longrightarrow>
              target_of (fst (check_target env (i, t) (m3, h3))) j = Some tj)"
    if d: "distinct (map fst (monitor_targets m))"
      and sp: "monitor_targets m = before @ (i, t) # after"
      and f: "fold (check_target env) before (m, h) = (m3, h3)"
      and g: "get_listing_detail env i h3 = (Inl e', h4)"
  proof -
    have c1: "check_target env (i, t) (m3, h3)
          = (if is_ValueError e'
             then remove_monitor_target i (emit (ShowStatus (EndedOrDeleted i)) m3)
             else emit (LogError (CheckTargetFailed i e')) m3, h4)"
      by (simp add: check_target_cases[OF g])
    have c2: "check_monitor_targets env m h
          = fold (check_target env) after (check_target env (i, t) (m3, h3))"
      by (simp add: check_monitor_targets_def sp f)
    have c3: "target_of (fst (check_target env (i, t) (m3, h3))) j = Some tj"
      if "(j, tj) \<in> set after" for j tj
    proof -
      have nj: "j \<notin> fst ` set before" "j \<noteq> i"
        using d sp that by (auto simp: rev_image_eqI)
      have "distinct (map fst (before @ (i, t) # after))"
        "(j, tj) \<in> set (before @ (i, t) # after)"
        using d sp that by simp_all
      then have "map_of (before @ (i, t) # after) j = Some tj"
        by (rule map_of_is_SomeI)
      then have "target_of m j = Some tj"
        by (simp add: target_of_def sp)
      then have "target_of m3 j = Some tj"
        using fold_check_target_frame[OF f, of j] nj(1) by simp
      moreover obtain m4 h5 where s: "check_target env (i, t) (m3, h3) = (m4, h5)"
        by (cases "check_target env (i, t) (m3, h3)")
      ultimately show ?thesis
        using check_target_frame[OF s, of j] nj(2) by simp
    qed
    from c1 c2 c3 show ?thesis by blast
  qed
  from a b show ?thesis by blast
qed

section \<open>The iteration at example values\<close>

text \<open>A retrieval that ends with its first page, and one whose first request fails.\<close>

lemma get_all_listings_single:
  assumes "session env" and "listings_reply env h (params 1 100 fc) = Ok r"
    and "total_pages (pagination r) \<le> 1"
  shows "get_all_listings env fc mp h = Some (Inr (data r), h @ [ListingsCall (params 1 100 fc)])"
  unfolding get_all_listings_def
  by (subst get_all_listings_loop.simps) (use assms in \<open>simp add: get_listings_def\<close>)

lemma get_all_listings_failed:
  assumes "session env" and "listings_reply env h (params 1 100 fc) = Failed"
  shows "get_all_listings env fc mp h = Some (Inl ClientError, h @ [ListingsCall (params 1 100 fc)])"
  unfolding get_all_listings_def
  by (subst get_all_listings_loop.simps) (use assms in \<open>simp add: get_listings_def\<close>)

lemma two_all: "get_all_listings two_env (Some no_filter) None h
    = Some (Inr expiry_cur, h @ [ListingsCall (params 1 100 (Some no_filter))])"
  by (rule get_all_listings_single[where r="\<lparr>data = expiry_cur,
                 pagination = \<lparr>total = 2, page = 1, per_page = 100, total_pages = 1\<rparr>\<rparr>", simplified])
     (simp_all add: two_env_def params_def no_filter_def keep_str_def truthy_str_def)

lemma two_filter: "filter_advanced tbl two_env no_filter ls acc h = (Inr (acc @ ls), h)"
  by (induction ls arbitrary: acc h)
     (simp_all add: check_advanced_filters_def no_advanced_filters_def no_filter_def
        truthy_list_def truthy_int_def truthy_str_def)

lemma two_search: "search_listings tbl two_env no_filter name notify m h
    = Some (expiry_cur, notify_new name notify expiry_cur m,
            h @ [ListingsCall (params 1 100 (Some no_filter))])"
  by (simp add: search_listings_def two_all two_filter)

lemma two_sort: "sort_listings expiry_cur = Inr [ex_listing 5 0 None 5, ex_listing 4 0 None 50]"
  by (simp add: sort_listings_def keys_comparable_def comparable_def expiry_cur_def ex_listing_def
      sort_key_of_def truncate_minute_def)

lemma two_conditions: "search_conditions tbl two_env [(no_filter, name)] m h
    = Some (expiry_cur, notify_new name True expiry_cur m,
            h @ [ListingsCall (params 1 100 (Some no_filter))])"
  by (simp add: two_search)






lemma two_cycle_idle:
  assumes "monitor_targets m = []"
  shows "continuous_search_step tbl two_env [(no_filter, name)] en m h =
     Some (emit (ShowStatus (CheckDone 2 0))
             (display_new [ex_listing 5 0 None 5, ex_listing 4 0 None 50]
                (notify_new name True expiry_cur m)),
           h @ [ListingsCall (params 1 100 (Some no_filter))])"
proof -
  have t: "monitor_targets (notify_new name True expiry_cur m) = []"
    using notify_new_step[of m name True expiry_cur] assms by (simp add: search_step_def)
  show ?thesis
    unfolding step_no_targets[OF two_conditions two_sort t] by (simp add: t)
qed




lemma idle_found: "notify_new ''all'' True expiry_cur idle_monitor
    = idle_monitor\<lparr>notified_listings := {4, 5},
        events := [NotifyFound expiry_cur ''all'' True]\<rparr>"
  by (auto simp: notify_new_def Let_def emit_def idle_monitor_def ex_monitor_def expiry_cur_def
      ex_listing_def)


lemma lid_ex: "lid (ex_listing i t d r) = i"
  by (simp add: ex_listing_def)




lemma found_again: "notify_new name True expiry_cur found_monitor = found_monitor"
  by (simp add: notify_new_def Let_def found_monitor_def expiry_cur_def lid_ex)

lemma run_first:
  "run_commands tbl two_env [Cycle [(no_filter, ''all'')] True] (idle_monitor, [])
     = Some (found_monitor, [ListingsCall (params 1 100 (Some no_filter))])"
proof -
  have i: "monitor_targets idle_monitor = []"
    by (simp add: idle_monitor_def ex_monitor_def)
  have d: "display_new [ex_listing 5 0 None 5, ex_listing 4 0 None 50]
      (idle_monitor\<lparr>notified_listings := {4, 5}, events := [NotifyFound expiry_cur ''all'' True]\<rparr>)
     = idle_monitor\<lparr>notified_listings := {4, 5}, last_displayed_ids := {5, 4},
         events := [NotifyFound expiry_cur ''all'' True,
                    ShowListingsTable [ex_listing 5 0 None 5, ex_listing 4 0 None 50]]\<rparr>"
    by (simp add: display_new_def Let_def lid_ex emit_def idle_monitor_def ex_monitor_def)
  have c: "{5, 4} = {4, 5::int}" by (rule insert_commute)
  show ?thesis
    by (simp add: two_cycle_idle[OF i] idle_found d) (simp add: emit_def found_monitor_def c)
qed

lemma run_second:
  "run_commands tbl two_env [Cycle [(no_filter, ''all'')] True, Stop] (found_monitor, h)
     = Some (found_monitor\<lparr>running := False,
               events := events found_monitor @ [ShowStatus (CheckDone 2 0), ShowStatus Stopping]\<rparr>,
             h @ [ListingsCall (params 1 100 (Some no_filter))])"
proof -
  have i: "monitor_targets found_monitor = []" "last_displayed_ids found_monitor = {4, 5}"
    by (simp_all add: found_monitor_def idle_monitor_def ex_monitor_def)
  have d: "display_new [ex_listing 5 0 None 5, ex_listing 4 0 None 50] found_monitor = found_monitor"
    using i(2) by (simp add: display_new_def Let_def lid_ex)
  show ?thesis
    by (simp add: two_cycle_idle[OF i(1)] found_again d) (simp add: emit_def stop_monitoring_def)
qed

text \<open>
  The theorem of claim C6: the first iteration announces the listings 4 and 5 and
  notifies them; a second iteration followed by a stop announces neither again.
\<close>

theorem notified_dedup_witness:
  "run_commands basic_mapping two_env [Cycle [(no_filter, ''all'')] True] (idle_monitor, [])
     = Some (found_monitor, [ListingsCall (params 1 100 (Some no_filter))])
   \<and> notified_listings idle_monitor = {}
   \<and> found_ids (new_events idle_monitor found_monitor) = {4, 5}
   \<and> notified_listings found_monitor = {4, 5}
   \<and> run_commands basic_mapping two_env [Cycle [(no_filter, ''all'')] True, Stop]
        (found_monitor, [ListingsCall (params 1 100 (Some no_filter))])
     = Some (found_monitor\<lparr>running := False,
               events := events found_monitor @ [ShowStatus (CheckDone 2 0), ShowStatus Stopping]\<rparr>,
             [ListingsCall (params 1 100 (Some no_filter)),
              ListingsCall (params 1 100 (Some no_filter))])
   \<and> found_ids (new_events found_monitor
        (found_monitor\<lparr>running := False,
           events := events found_monitor @ [ShowStatus (CheckDone 2 0), ShowStatus Stopping]\<rparr>))
       \<inter> {4, 5} = {}
   \<and> notified_listings (clear_notified_listings found_monitor) = {}"
proof -
  have n: "notified_listings idle_monitor = {}" "notified_listings found_monitor = {4, 5}"
    by (simp_all add: idle_monitor_def ex_monitor_def found_monitor_def)
  note r1 = run_first[of basic_mapping]
  have r2: "run_commands basic_mapping two_env [Cycle [(no_filter, ''all'')] True, Stop]
        (found_monitor, [ListingsCall (params 1 100 (Some no_filter))])
     = Some (found_monitor\<lparr>running := False,
               events := events found_monitor @ [ShowStatus (CheckDone 2 0), ShowStatus Stopping]\<rparr>,
             [ListingsCall (params 1 100 (Some no_filter)),
              ListingsCall (params 1 100 (Some no_filter))])"
    unfolding run_second[of basic_mapping "[ListingsCall (params 1 100 (Some no_filter))]"]
    by simp
  from notified_dedup [OF r1]
  have a1: "notified_listings found_monitor
      = notified_listings idle_monitor \<union> found_ids (new_events idle_monitor found_monitor)"
    and a2: "notified_listings (clear_notified_listings found_monitor) = {}"
    by blast+
  have a: "found_ids (new_events idle_monitor found_monitor) = {4, 5}"
    using a1 unfolding n by simp
  from notified_dedup [OF r2]
  have "found_ids (new_events found_monitor
        (found_monitor\<lparr>running := False,
           events := events found_monitor @ [ShowStatus (CheckDone 2 0), ShowStatus Stopping]\<rparr>))
       \<inter> notified_listings found_monitor = {}"
    by blast
  then have b: "found_ids (new_events found_monitor
        (found_monitor\<lparr>running := False,
           events := events found_monitor @ [ShowStatus (CheckDone 2 0), ShowStatus Stopping]\<rparr>))
       \<inter> {4, 5} = {}"
    unfolding n .
  from r1 r2 n a a2 b show ?thesis by blast
qed

lemma bad_failure:
  "search_failure tbl two_env bad_filter h
     = Some (ClientError, h @ [ListingsCall (params 1 100 (Some bad_filter))])"
proof -
  have "get_all_listings two_env (Some bad_filter) None h
      = Some (Inl ClientError, h @ [ListingsCall (params 1 100 (Some bad_filter))])"
    by (rule get_all_listings_failed)
       (simp_all add: two_env_def params_def bad_filter_def no_filter_def keep_str_def truthy_str_def)
  then show ?thesis by (simp add: search_failure_def)
qed

text \<open>
  The theorem of claim C8: the search for the category \<open>bad\<close> fails and the search
  after it still returns its two listings; the detail request for target 1 fails,
  target 1 stays, and the loop goes on to remove target 2 (not found) and to keep
  target 3.
\<close>

theorem failure_isolation_witness:
  "search_failure basic_mapping two_env bad_filter []
     = Some (ClientError, [ListingsCall (params 1 100 (Some bad_filter))])
   \<and> map_option fst (search_conditions basic_mapping two_env
        [(bad_filter, ''bad''), (no_filter, ''all'')] idle_monitor []) = Some expiry_cur
   \<and> distinct (map fst (monitor_targets ex_monitor))
   \<and> get_listing_detail two_env 1 [] = (Inl ClientError, [DetailCall 1])
   \<and> check_monitor_targets two_env ex_monitor []
       = fold (check_target two_env)
           [(2, \<lparr>listing_id = 2, last_update = 100, time_without_update = 0\<rparr>),
            (3, \<lparr>listing_id = 3, last_update = 0, time_without_update = 0\<rparr>)]
           (emit (LogError (CheckTargetFailed 1 ClientError)) ex_monitor, [DetailCall 1])
   \<and> map fst (monitor_targets (fst (check_monitor_targets two_env ex_monitor []))) = [1, 3]"
proof -
  let ?t1 = "\<lparr>listing_id = 1, last_update = 0, time_without_update = 0\<rparr>"
  let ?t2 = "\<lparr>listing_id = 2, last_update = 100, time_without_update = 0\<rparr>"
  let ?t3 = "\<lparr>listing_id = 3, last_update = 0, time_without_update = 0\<rparr>"
  have sc: "search_conditions basic_mapping two_env [] idle_monitor [] = Some ([], idle_monitor, [])"
    by simp
  note sf = bad_failure[of basic_mapping "[]", simplified]
  from failure_isolation [where tbl = basic_mapping and env = two_env and pre = "[]"
      and m = idle_monitor and h = "[]" and ?r1.0 = "[]" and ?m1.0 = idle_monitor and ?h1.0 = "[]"
      and fc = bad_filter and e = ClientError
      and ?h2.0 = "[ListingsCall (params 1 100 (Some bad_filter))]"
      and name = "''bad''" and rest = "[(no_filter, ''all'')]"] sc sf
  have "search_conditions basic_mapping two_env ([] @ (bad_filter, ''bad'') # [(no_filter, ''all'')])
          idle_monitor []
      = map_option (\<lambda>(r2, m2, h3). ([] @ r2, m2, h3))
          (search_conditions basic_mapping two_env [(no_filter, ''all'')]
             (emit (LogError (SearchFailed ClientError)) idle_monitor)
             [ListingsCall (params 1 100 (Some bad_filter))])"
    by blast
  then have e1: "search_conditions basic_mapping two_env
        [(bad_filter, ''bad''), (no_filter, ''all'')] idle_monitor []
      = map_option (\<lambda>(r2, m2, h3). ([] @ r2, m2, h3))
          (search_conditions basic_mapping two_env [(no_filter, ''all'')]
             (emit (LogError (SearchFailed ClientError)) idle_monitor)
             [ListingsCall (params 1 100 (Some bad_filter))])"
    by (simp only: append_Nil)
  have a: "map_option fst (search_conditions basic_mapping two_env
        [(bad_filter, ''bad''), (no_filter, ''all'')] idle_monitor []) = Some expiry_cur"
    unfolding e1 two_conditions by simp
  have d: "distinct (map fst (monitor_targets ex_monitor))"
    by (simp add: ex_monitor_def)
  have sp: "monitor_targets ex_monitor = [] @ (1, ?t1) # [(2, ?t2), (3, ?t3)]"
    by (simp add: ex_monitor_def)
  have f: "fold (check_target two_env) [] (ex_monitor, []) = (ex_monitor, [])"
    by simp
  have g: "get_listing_detail two_env 1 [] = (Inl ClientError, [DetailCall 1])"
    by (simp add: get_listing_detail_def two_env_def)
  have nv: "\<not> is_ValueError ClientError"
    by (simp add: is_ValueError_def)
  from failure_isolation [where env = two_env and m = ex_monitor and h = "[]" and before = "[]"
      and i = 1 and t = ?t1 and after = "[(2, ?t2), (3, ?t3)]" and ?m3.0 = ex_monitor
      and ?h3.0 = "[]" and e' = ClientError and ?h4.0 = "[DetailCall 1]"] d sp f g
  have "check_target two_env (1, ?t1) (ex_monitor, [])
          = (if is_ValueError ClientError
             then remove_monitor_target 1 (emit (ShowStatus (EndedOrDeleted 1)) ex_monitor)
             else emit (LogError (CheckTargetFailed 1 ClientError)) ex_monitor, [DetailCall 1])
        \<and> check_monitor_targets two_env ex_monitor []
          = fold (check_target two_env) [(2, ?t2), (3, ?t3)]
              (check_target two_env (1, ?t1) (ex_monitor, []))"
    by blast
  then have b: "check_monitor_targets two_env ex_monitor []
       = fold (check_target two_env) [(2, ?t2), (3, ?t3)]
           (emit (LogError (CheckTargetFailed 1 ClientError)) ex_monitor, [DetailCall 1])"
    using nv by simp
  have c: "map fst (monitor_targets (fst (check_monitor_targets two_env ex_monitor []))) = [1, 3]"
    by (simp add: check_monitor_targets_def check_target_def two_env_def ex_monitor_def
        get_listing_detail_def is_ValueError_def remove_monitor_target_def emit_def
        set_target_def ex_listing_def total_seconds_def Let_def)
  from sf a d g b c show ?thesis by blast
qed

end
